theory Spec2Isabelle
  imports Main "HOL-Library.Word"
begin

unbundle bit_operations_syntax

section \<open>Data model of kernel/memory.c\<close>

text \<open>
  Addresses, page-table words and counters are \<open>uint32_t\<close>: 32-bit words whose
  arithmetic wraps. A pointer is its address; \<open>NULL\<close> is the address 0, so that a
  computed address 0 and a failure are the same value for a caller, as in the C code.
\<close>

type_synonym u32 = "32 word"

text \<open>
  Modelled from the spec: debug.h is not among the sources; a failed \<open>ASSERT\<close> and a
  \<open>PANIC\<close> halt the system immediately (section 7 of the specification, "fatal invariant
  violations"). The third way not to return is an access the C language leaves undefined:
  a \<open>NULL\<close> dereference, an index past the descriptor array, a pop from an empty list.
\<close>

datatype halt = ASSERT_failed | PANIC_raised | Undefined_access

text \<open>
  Modelled from the spec: memory.h is not among the sources. The page size follows from the
  12 offset bits of an address, the attribute bits are the present, writable and
  user-accessible bits of an x86 page-table entry, the number of size classes is the one
  whose largest class equals the 1024-byte threshold, and \<open>enum pool_flags\<close> has the two
  members the code tests.
\<close>

definition PG_SIZE :: u32 where "PG_SIZE = 4096"
definition PG_P_1 :: u32 where "PG_P_1 = 1"
definition PG_RW_W :: u32 where "PG_RW_W = 2"
definition PG_US_U :: u32 where "PG_US_U = 4"
definition DESC_CNT :: nat where "DESC_CNT = 7"
definition K_HEAP_START :: u32 where "K_HEAP_START = 0xc0100000"

datatype pool_flags = PF_KERNEL | PF_USER

text \<open>
  \<open>struct bitmap\<close>: the length in bytes and the bits behind the \<open>bits\<close> pointer. The bits
  are a function of the bit index; an index at or beyond \<open>btmp_bytes_len * 8\<close> stands for
  the memory behind the buffer, which \<open>bitmap_set\<close> writes without a check and
  \<open>bitmap_scan\<close> never reads.
\<close>

record bitmap =
  btmp_bytes_len :: u32
  bits :: "nat \<Rightarrow> bool"

record pool =
  pool_bitmap :: bitmap
  phy_addr_start :: u32
  pool_size :: u32

record virtual_addr =
  vaddr_bitmap :: bitmap
  vaddr_start :: u32

text \<open>
  A pointer to a \<open>struct mem_block_desc\<close> is the array it points into (the kernel's
  \<open>k_block_descs\<close> or the running task's \<open>u_block_desc\<close>) and the index.
\<close>

datatype desc_array = K_BLOCK_DESCS | U_BLOCK_DESC

type_synonym desc_ptr = "desc_array \<times> nat"

record arena =
  desc :: "desc_ptr option"
  cnt :: u32
  large :: bool

text \<open>
  Modelled from the spec: list.h is not among the sources. The intrusive free list of a
  size class is the list of the addresses of its free blocks, front first.
\<close>

record mem_block_desc =
  block_size :: u32
  blocks_per_arena :: u32
  free_list :: "u32 list"

text \<open>
  The part of \<open>struct task_struct\<close> that memory.c reads: \<open>pgdir\<close> is \<open>NULL\<close> (0) for a
  kernel thread.
\<close>

record task_struct =
  pgdir :: u32
  userprog_vaddr :: virtual_addr
  u_block_desc :: "mem_block_desc list"

text \<open>
  The global state. \<open>cur\<close> is the task \<open>running_thread()\<close> returns. Memory is kept in
  two typed views: \<open>ptmem\<close> holds the 32-bit words of the page directory and page tables,
  at the virtual addresses \<open>pde_ptr\<close> and \<open>pte_ptr\<close> compute, and \<open>arenas\<close> holds the
  arena header stored at an address of the heap. The locks and the interrupt flag are
  not part of the state: one thread runs, and an acquire never blocks.
\<close>

record kstate =
  kernel_pool :: pool
  user_pool :: pool
  kernel_vaddr :: virtual_addr
  k_block_descs :: "mem_block_desc list"
  cur :: task_struct
  ptmem :: "u32 \<Rightarrow> u32"
  arenas :: "u32 \<Rightarrow> arena"

section \<open>The capacity tracker\<close>

text \<open>
  Modelled from the spec: bitmap.c is not among the sources. \<open>bitmap_scan\<close> looks for
  \<open>n\<close> contiguous free bits among the \<open>btmp_bytes_len * 8\<close> bits of the tracker and
  returns the start index of the first such run, or nothing (the C function's -1);
  \<open>bitmap_set\<close> sets or clears one bit.
\<close>

definition bitmap_bits :: "bitmap \<Rightarrow> nat" where
  "bitmap_bits btmp = unat (btmp_bytes_len btmp) * 8"

definition run_free :: "bitmap \<Rightarrow> nat \<Rightarrow> nat \<Rightarrow> bool" where
  "run_free btmp n i \<longleftrightarrow> i + n \<le> bitmap_bits btmp \<and> (\<forall>j \<in> set [i..<i + n]. \<not> bits btmp j)"

definition bitmap_scan :: "bitmap \<Rightarrow> nat \<Rightarrow> nat option" where
  "bitmap_scan btmp n = find (run_free btmp n) [0..<bitmap_bits btmp]"

definition bitmap_set :: "bitmap \<Rightarrow> nat \<Rightarrow> bool \<Rightarrow> bitmap" where
  "bitmap_set btmp i v = btmp\<lparr>bits := (bits btmp)(i := v)\<rparr>"

text \<open>
  The loop \<open>while (cnt < pg_cnt) bitmap_set(btmp, bit_idx_start + cnt++, v)\<close>: the
  bits from \<open>start\<close> on, in increasing order; the last argument counts the rounds left.
\<close>

fun bitmap_set_run :: "bitmap \<Rightarrow> nat \<Rightarrow> bool \<Rightarrow> nat \<Rightarrow> bitmap" where
  "bitmap_set_run btmp start v 0 = btmp"
| "bitmap_set_run btmp start v (Suc n) = bitmap_set_run (bitmap_set btmp start v) (Suc start) v n"

section \<open>Page-table addressing\<close>

definition PDE_IDX :: "u32 \<Rightarrow> u32" where
  "PDE_IDX addr = drop_bit 22 (addr AND 0xffc00000)"

definition PTE_IDX :: "u32 \<Rightarrow> u32" where
  "PTE_IDX addr = drop_bit 12 (addr AND 0x003ff000)"

definition pte_ptr :: "u32 \<Rightarrow> u32" where
  "pte_ptr vaddr = 0xffc00000 + drop_bit 10 (vaddr AND 0xffc00000) + PTE_IDX vaddr * 4"

definition pde_ptr :: "u32 \<Rightarrow> u32" where
  "pde_ptr vaddr = 0xfffff000 + PDE_IDX vaddr * 4"

text \<open>\<open>memset(base, 0, len)\<close> on the page-table words: every word in the range is 0.\<close>

definition memset_words :: "(u32 \<Rightarrow> u32) \<Rightarrow> u32 \<Rightarrow> u32 \<Rightarrow> (u32 \<Rightarrow> u32)" where
  "memset_words m base len = (\<lambda>x. if x - base < len then 0 else m x)"

section \<open>Physical frames and mappings\<close>

definition palloc :: "pool \<Rightarrow> u32 \<times> pool" where
  "palloc m_pool =
     (case bitmap_scan (pool_bitmap m_pool) 1 of
        None \<Rightarrow> (0, m_pool)
      | Some bit_idx \<Rightarrow>
          (of_nat bit_idx * PG_SIZE + phy_addr_start m_pool,
           m_pool\<lparr>pool_bitmap := bitmap_set (pool_bitmap m_pool) bit_idx True\<rparr>))"

definition page_table_add :: "kstate \<Rightarrow> u32 \<Rightarrow> u32 \<Rightarrow> halt + kstate" where
  "page_table_add s vaddr page_phyaddr =
     (let pde = pde_ptr vaddr; pte = pte_ptr vaddr in
      if ptmem s pde AND 1 \<noteq> 0 then
        if ptmem s pte AND 1 \<noteq> 0 then Inl ASSERT_failed
        else if \<not> (ptmem s pte AND 1 \<noteq> 0) then
          Inr (s\<lparr>ptmem := (ptmem s)(pte := page_phyaddr OR PG_US_U OR PG_RW_W OR PG_P_1)\<rparr>)
        else Inl PANIC_raised
      else
        let (pde_phyaddr, kp) = palloc (kernel_pool s);
            m1 = (ptmem s)(pde := pde_phyaddr OR PG_US_U OR PG_RW_W OR PG_P_1);
            m2 = memset_words m1 (pte AND 0xfffff000) PG_SIZE
        in if m2 pte AND 1 \<noteq> 0 then Inl ASSERT_failed
           else Inr (s\<lparr>kernel_pool := kp,
                       ptmem := m2(pte := page_phyaddr OR PG_US_U OR PG_RW_W OR PG_P_1)\<rparr>))"

definition addr_v2p :: "kstate \<Rightarrow> u32 \<Rightarrow> u32" where
  "addr_v2p s vaddr = (ptmem s (pte_ptr vaddr) AND 0xfffff000) + (vaddr AND 0x00000fff)"


text \<open>
  \<open>struct pool* mem_pool = pf & PF_KERNEL ? &kernel_pool : &user_pool\<close>: the pool a
  flag selects, and the write through that pointer.
\<close>

definition mem_pool_of :: "kstate \<Rightarrow> pool_flags \<Rightarrow> pool" where
  "mem_pool_of s pf = (if pf = PF_KERNEL then kernel_pool s else user_pool s)"

definition set_mem_pool :: "kstate \<Rightarrow> pool_flags \<Rightarrow> pool \<Rightarrow> kstate" where
  "set_mem_pool s pf p = (if pf = PF_KERNEL then s\<lparr>kernel_pool := p\<rparr> else s\<lparr>user_pool := p\<rparr>)"

section \<open>Virtual pages\<close>

definition vaddr_get :: "kstate \<Rightarrow> pool_flags \<Rightarrow> u32 \<Rightarrow> halt + (u32 \<times> kstate)" where
  "vaddr_get s pf pg_cnt =
     (if pf = PF_KERNEL then
        case bitmap_scan (vaddr_bitmap (kernel_vaddr s)) (unat pg_cnt) of
          None \<Rightarrow> Inr (0, s)
        | Some bit_idx_start \<Rightarrow>
            let btmp = bitmap_set_run (vaddr_bitmap (kernel_vaddr s)) bit_idx_start True (unat pg_cnt);
                va = vaddr_start (kernel_vaddr s) + of_nat bit_idx_start * PG_SIZE
            in Inr (va, s\<lparr>kernel_vaddr := (kernel_vaddr s)\<lparr>vaddr_bitmap := btmp\<rparr>\<rparr>)
      else
        case bitmap_scan (vaddr_bitmap (userprog_vaddr (cur s))) (unat pg_cnt) of
          None \<Rightarrow> Inr (0, s)
        | Some bit_idx_start \<Rightarrow>
            let btmp = bitmap_set_run (vaddr_bitmap (userprog_vaddr (cur s))) bit_idx_start True
                         (unat pg_cnt);
                va = vaddr_start (userprog_vaddr (cur s)) + of_nat bit_idx_start * PG_SIZE
            in if va < 0xc0000000 - PG_SIZE
               then Inr (va, s\<lparr>cur := (cur s)\<lparr>userprog_vaddr :=
                                  (userprog_vaddr (cur s))\<lparr>vaddr_bitmap := btmp\<rparr>\<rparr>\<rparr>)
               else Inl ASSERT_failed)"

text \<open>
  The loop of \<open>malloc_page\<close>, \<open>while (cnt-- > 0)\<close>; the last argument is \<open>cnt\<close>. The
  result says whether every frame was found.
\<close>

fun malloc_page_loop :: "kstate \<Rightarrow> pool_flags \<Rightarrow> u32 \<Rightarrow> nat \<Rightarrow> halt + (bool \<times> kstate)" where
  "malloc_page_loop s pf vaddr 0 = Inr (True, s)"
| "malloc_page_loop s pf vaddr (Suc n) =
     (let (page_phyaddr, p) = palloc (mem_pool_of s pf);
          s1 = set_mem_pool s pf p
      in if page_phyaddr = 0 then Inr (False, s1)
         else case page_table_add s1 vaddr page_phyaddr of
                Inl e \<Rightarrow> Inl e
              | Inr s2 \<Rightarrow> malloc_page_loop s2 pf (vaddr + PG_SIZE) n)"

definition malloc_page :: "kstate \<Rightarrow> pool_flags \<Rightarrow> u32 \<Rightarrow> halt + (u32 \<times> kstate)" where
  "malloc_page s pf pg_cnt =
     (if \<not> (pg_cnt > 0 \<and> pg_cnt < 3840) then Inl ASSERT_failed
      else case vaddr_get s pf pg_cnt of
             Inl e \<Rightarrow> Inl e
           | Inr (va, s1) \<Rightarrow>
               if va = 0 then Inr (0, s1)
               else case malloc_page_loop s1 pf va (unat pg_cnt) of
                      Inl e \<Rightarrow> Inl e
                    | Inr (ok, s2) \<Rightarrow> Inr (if ok then va else 0, s2))"

definition get_a_page :: "kstate \<Rightarrow> pool_flags \<Rightarrow> u32 \<Rightarrow> halt + (u32 \<times> kstate)" where
  "get_a_page s pf vaddr =
     (let marked =
            (if pgdir (cur s) \<noteq> 0 \<and> pf = PF_USER then
               let bit_idx = (vaddr - vaddr_start (userprog_vaddr (cur s))) div PG_SIZE
               in if \<not> (0 < sint bit_idx) then Inl ASSERT_failed
                  else Inr (s\<lparr>cur := (cur s)\<lparr>userprog_vaddr := (userprog_vaddr (cur s))
                         \<lparr>vaddr_bitmap := bitmap_set (vaddr_bitmap (userprog_vaddr (cur s)))
                                            (unat bit_idx) True\<rparr>\<rparr>\<rparr>)
             else if pgdir (cur s) = 0 \<and> pf = PF_KERNEL then
               let bit_idx = (vaddr - vaddr_start (kernel_vaddr s)) div PG_SIZE
               in if \<not> (0 < sint bit_idx) then Inl ASSERT_failed
                  else Inr (s\<lparr>kernel_vaddr := (kernel_vaddr s)
                         \<lparr>vaddr_bitmap := bitmap_set (vaddr_bitmap (kernel_vaddr s))
                                            (unat bit_idx) True\<rparr>\<rparr>)
             else Inl PANIC_raised)
      in case marked of
           Inl e \<Rightarrow> Inl e
         | Inr s1 \<Rightarrow>
             let (page_phyaddr, p) = palloc (mem_pool_of s1 pf);
                 s2 = set_mem_pool s1 pf p
             in if page_phyaddr = 0 then Inr (0, s2)
                else case page_table_add s2 vaddr page_phyaddr of
                       Inl e \<Rightarrow> Inl e
                     | Inr s3 \<Rightarrow> Inr (vaddr, s3))"


section \<open>Size classes and arenas\<close>

text \<open>
  \<open>sizeof(struct arena)\<close>: the struct is declared in memory.c with a pointer, a
  \<open>uint32_t\<close> and a \<open>bool\<close>, 12 bytes on the 32-bit target.
\<close>

definition sizeof_arena :: u32 where "sizeof_arena = 12"

text \<open>
  The loop of \<open>block_desc_init\<close>: the first argument counts the descriptors left, the
  second is the \<open>uint16_t block_size\<close>, doubled after each descriptor.
\<close>

fun block_desc_init_loop :: "nat \<Rightarrow> 16 word \<Rightarrow> mem_block_desc list" where
  "block_desc_init_loop 0 bs = []"
| "block_desc_init_loop (Suc n) bs =
     \<lparr>block_size = ucast bs,
      blocks_per_arena = (PG_SIZE - sizeof_arena) div ucast bs,
      free_list = []\<rparr> # block_desc_init_loop n (bs * 2)"

definition block_desc_init :: "mem_block_desc list" where
  "block_desc_init = block_desc_init_loop DESC_CNT 16"

text \<open>Reading and writing through a descriptor pointer; nothing is behind an index past the array.\<close>

definition descs_of :: "kstate \<Rightarrow> desc_array \<Rightarrow> mem_block_desc list" where
  "descs_of s descs = (case descs of K_BLOCK_DESCS \<Rightarrow> k_block_descs s
                                   | U_BLOCK_DESC \<Rightarrow> u_block_desc (cur s))"

definition get_desc :: "kstate \<Rightarrow> desc_ptr \<Rightarrow> mem_block_desc option" where
  "get_desc s dp =
     (case dp of (descs, i) \<Rightarrow>
        if i < length (descs_of s descs) then Some (descs_of s descs ! i) else None)"

definition put_desc :: "kstate \<Rightarrow> desc_ptr \<Rightarrow> mem_block_desc \<Rightarrow> kstate" where
  "put_desc s dp d =
     (case dp of
        (K_BLOCK_DESCS, i) \<Rightarrow> s\<lparr>k_block_descs := (k_block_descs s)[i := d]\<rparr>
      | (U_BLOCK_DESC, i) \<Rightarrow>
          s\<lparr>cur := (cur s)\<lparr>u_block_desc := (u_block_desc (cur s))[i := d]\<rparr>\<rparr>)"

text \<open>
  Modelled from the spec: the list primitives of list.h (append a node, remove a node, test
  membership, pop the front node, test emptiness) on the list of block addresses.
\<close>

definition list_append :: "u32 list \<Rightarrow> u32 \<Rightarrow> u32 list" where
  "list_append plist elem = plist @ [elem]"

definition list_pop :: "u32 list \<Rightarrow> (u32 \<times> u32 list) option" where
  "list_pop plist = (case plist of [] \<Rightarrow> None | elem # rest \<Rightarrow> Some (elem, rest))"

definition list_remove :: "u32 list \<Rightarrow> u32 \<Rightarrow> u32 list" where
  "list_remove plist elem = removeAll elem plist"

definition elem_find :: "u32 list \<Rightarrow> u32 \<Rightarrow> bool" where
  "elem_find plist elem \<longleftrightarrow> elem \<in> set plist"

definition list_empty :: "u32 list \<Rightarrow> bool" where
  "list_empty plist \<longleftrightarrow> plist = []"

text \<open>\<open>arena2block\<close> reads \<open>a->desc->block_size\<close>; there is no block behind a \<open>NULL\<close> descriptor.\<close>

definition arena2block :: "kstate \<Rightarrow> u32 \<Rightarrow> u32 \<Rightarrow> u32 option" where
  "arena2block s a idx =
     (case desc (arenas s a) of
        None \<Rightarrow> None
      | Some dp \<Rightarrow> (case get_desc s dp of
                     None \<Rightarrow> None
                   | Some d \<Rightarrow> Some (a + sizeof_arena + idx * block_size d)))"

definition block2arena :: "u32 \<Rightarrow> u32" where
  "block2arena b = b AND 0xfffff000"

text \<open>\<open>memset(base, 0, len)\<close> on the heap: an arena header stored in the range is all zero.\<close>

definition zero_arena :: arena where
  "zero_arena = \<lparr>desc = None, cnt = 0, large = False\<rparr>"

definition memset_arenas :: "(u32 \<Rightarrow> arena) \<Rightarrow> u32 \<Rightarrow> u32 \<Rightarrow> (u32 \<Rightarrow> arena)" where
  "memset_arenas m base len = (\<lambda>x. if x - base < len then zero_arena else m x)"

text \<open>
  Modelled from the spec: the macro \<open>DIV_ROUND_UP\<close> of global.h is not among the sources;
  it is the number of steps needed to hold \<open>x\<close>, in 32-bit arithmetic.
\<close>

definition DIV_ROUND_UP :: "u32 \<Rightarrow> u32 \<Rightarrow> u32" where
  "DIV_ROUND_UP x step = (x + step - 1) div step"

section \<open>\<open>sys_malloc\<close>\<close>

text \<open>The branch \<open>size > 1024\<close>: whole pages behind one arena header.\<close>

definition sys_malloc_large :: "kstate \<Rightarrow> pool_flags \<Rightarrow> u32 \<Rightarrow> halt + (u32 \<times> kstate)" where
  "sys_malloc_large s pf sz =
     (let page_cnt = DIV_ROUND_UP (sz + sizeof_arena) PG_SIZE
      in case malloc_page s pf page_cnt of
           Inl e \<Rightarrow> Inl e
         | Inr (a, s1) \<Rightarrow>
             if a \<noteq> 0 then
               let m = memset_arenas (arenas s1) a (page_cnt * PG_SIZE)
               in Inr (a + sizeof_arena,
                       s1\<lparr>arenas := m(a := \<lparr>desc = None, cnt = page_cnt, large = True\<rparr>)\<rparr>)
             else Inr (0, s1))"

text \<open>
  The search \<open>for (desc_idx = 0; desc_idx < DESC_CNT; desc_idx++) if (size <=
  descs[desc_idx].block_size) break\<close>, from index \<open>i\<close> on.
\<close>

fun find_desc_idx :: "mem_block_desc list \<Rightarrow> u32 \<Rightarrow> nat \<Rightarrow> nat \<Rightarrow> nat" where
  "find_desc_idx descs sz i 0 = i"
| "find_desc_idx descs sz i (Suc n) =
     (if sz \<le> block_size (descs ! i) then i else find_desc_idx descs sz (Suc i) n)"

definition desc_idx_of :: "mem_block_desc list \<Rightarrow> u32 \<Rightarrow> nat" where
  "desc_idx_of descs sz = find_desc_idx descs sz 0 DESC_CNT"

text \<open>
  The loop that cuts a fresh arena into blocks and appends each to the free list of the
  arena's descriptor; \<open>block_idx\<close> is the index of the next block, the last argument the
  number of rounds left.
\<close>

fun arena_split :: "kstate \<Rightarrow> u32 \<Rightarrow> u32 \<Rightarrow> nat \<Rightarrow> halt + kstate" where
  "arena_split s a block_idx 0 = Inr s"
| "arena_split s a block_idx (Suc n) =
     (case arena2block s a block_idx of
        None \<Rightarrow> Inl Undefined_access
      | Some b \<Rightarrow>
          (case desc (arenas s a) of
             None \<Rightarrow> Inl Undefined_access
           | Some dp \<Rightarrow>
               (case get_desc s dp of
                  None \<Rightarrow> Inl Undefined_access
                | Some d \<Rightarrow>
                    if elem_find (free_list d) b then Inl ASSERT_failed
                    else arena_split (put_desc s dp (d\<lparr>free_list := list_append (free_list d) b\<rparr>))
                           a (block_idx + 1) n)))"

text \<open>The end of the small branch: pop a block, zero it, count it out of its arena.\<close>

definition block_take :: "kstate \<Rightarrow> desc_ptr \<Rightarrow> halt + (u32 \<times> kstate)" where
  "block_take s dp =
     (case get_desc s dp of
        None \<Rightarrow> Inl Undefined_access
      | Some d \<Rightarrow>
          (case list_pop (free_list d) of
             None \<Rightarrow> Inl Undefined_access
           | Some (b, rest) \<Rightarrow>
               let s1 = put_desc s dp (d\<lparr>free_list := rest\<rparr>);
                   m = memset_arenas (arenas s1) b (block_size d);
                   a = block2arena b
               in Inr (b, s1\<lparr>arenas := m(a := (m a)\<lparr>cnt := cnt (m a) - 1\<rparr>)\<rparr>)))"

text \<open>The branch \<open>size <= 1024\<close>; \<open>descs\<close> is the descriptor array of the owner.\<close>

definition sys_malloc_small ::
  "kstate \<Rightarrow> pool_flags \<Rightarrow> desc_array \<Rightarrow> u32 \<Rightarrow> halt + (u32 \<times> kstate)" where
  "sys_malloc_small s pf descs sz =
     (let desc_idx = desc_idx_of (descs_of s descs) sz
      in case get_desc s (descs, desc_idx) of
           None \<Rightarrow> Inl Undefined_access
         | Some d \<Rightarrow>
             if list_empty (free_list d) then
               (case malloc_page s pf 1 of
                  Inl e \<Rightarrow> Inl e
                | Inr (a, s1) \<Rightarrow>
                    if a = 0 then Inr (0, s1)
                    else
                      let m = memset_arenas (arenas s1) a PG_SIZE;
                          s2 = s1\<lparr>arenas := m(a := \<lparr>desc = Some (descs, desc_idx),
                                                     cnt = blocks_per_arena d,
                                                     large = False\<rparr>)\<rparr>
                      in (case arena_split s2 a 0 (unat (blocks_per_arena d)) of
                            Inl e \<Rightarrow> Inl e
                          | Inr s3 \<Rightarrow> block_take s3 (descs, desc_idx)))
             else block_take s (descs, desc_idx))"

definition sys_malloc :: "kstate \<Rightarrow> u32 \<Rightarrow> halt + (u32 \<times> kstate)" where
  "sys_malloc s sz =
     (let pf = (if pgdir (cur s) = 0 then PF_KERNEL else PF_USER);
          psize = (if pgdir (cur s) = 0 then pool_size (kernel_pool s) else pool_size (user_pool s));
          descs = (if pgdir (cur s) = 0 then K_BLOCK_DESCS else U_BLOCK_DESC)
      in if \<not> (sz > 0 \<and> sz < psize) then Inr (0, s)
         else if sz > 1024 then sys_malloc_large s pf sz
         else sys_malloc_small s pf descs sz)"


section \<open>Giving pages back\<close>

definition pfree :: "kstate \<Rightarrow> u32 \<Rightarrow> kstate" where
  "pfree s pg_phy_addr =
     (if pg_phy_addr \<ge> phy_addr_start (user_pool s) then
        let bit_idx = (pg_phy_addr - phy_addr_start (user_pool s)) div PG_SIZE
        in s\<lparr>user_pool := (user_pool s)
               \<lparr>pool_bitmap := bitmap_set (pool_bitmap (user_pool s)) (unat bit_idx) False\<rparr>\<rparr>
      else
        let bit_idx = (pg_phy_addr - phy_addr_start (kernel_pool s)) div PG_SIZE
        in s\<lparr>kernel_pool := (kernel_pool s)
               \<lparr>pool_bitmap := bitmap_set (pool_bitmap (kernel_pool s)) (unat bit_idx) False\<rparr>\<rparr>)"

definition page_table_pte_remove :: "kstate \<Rightarrow> u32 \<Rightarrow> kstate" where
  "page_table_pte_remove s vaddr =
     (let pte = pte_ptr vaddr in s\<lparr>ptmem := (ptmem s)(pte := ptmem s pte AND NOT PG_P_1)\<rparr>)"

definition vaddr_remove :: "kstate \<Rightarrow> pool_flags \<Rightarrow> u32 \<Rightarrow> u32 \<Rightarrow> kstate" where
  "vaddr_remove s pf vaddr pg_cnt =
     (if pf = PF_KERNEL then
        let bit_idx_start = (vaddr - vaddr_start (kernel_vaddr s)) div PG_SIZE
        in s\<lparr>kernel_vaddr := (kernel_vaddr s)
               \<lparr>vaddr_bitmap := bitmap_set_run (vaddr_bitmap (kernel_vaddr s))
                                  (unat bit_idx_start) False (unat pg_cnt)\<rparr>\<rparr>
      else
        let bit_idx_start = (vaddr - vaddr_start (userprog_vaddr (cur s))) div PG_SIZE
        in s\<lparr>cur := (cur s)\<lparr>userprog_vaddr := (userprog_vaddr (cur s))
               \<lparr>vaddr_bitmap := bitmap_set_run (vaddr_bitmap (userprog_vaddr (cur s)))
                                  (unat bit_idx_start) False (unat pg_cnt)\<rparr>\<rparr>\<rparr>)"

text \<open>
  The two loops of \<open>mfree_page\<close>. The C code steps \<open>vaddr\<close> back one page before the loop
  and forward at the head of each round; here \<open>vaddr\<close> is the page of the round and is
  stepped at its end. The last argument is the number of rounds left. The loop for the
  user pool tests \<open>pg_phy_addr & PG_SIZE\<close>, the one for the kernel pool
  \<open>pg_phy_addr % PG_SIZE\<close>.
\<close>

fun mfree_user_loop :: "kstate \<Rightarrow> u32 \<Rightarrow> nat \<Rightarrow> halt + kstate" where
  "mfree_user_loop s vaddr 0 = Inr s"
| "mfree_user_loop s vaddr (Suc n) =
     (let pg_phy_addr = addr_v2p s vaddr
      in if \<not> (pg_phy_addr AND PG_SIZE = 0 \<and> pg_phy_addr \<ge> phy_addr_start (user_pool s))
         then Inl ASSERT_failed
         else mfree_user_loop (page_table_pte_remove (pfree s pg_phy_addr) vaddr)
                (vaddr + PG_SIZE) n)"

fun mfree_kernel_loop :: "kstate \<Rightarrow> u32 \<Rightarrow> nat \<Rightarrow> halt + kstate" where
  "mfree_kernel_loop s vaddr 0 = Inr s"
| "mfree_kernel_loop s vaddr (Suc n) =
     (let pg_phy_addr = addr_v2p s vaddr
      in if \<not> (pg_phy_addr mod PG_SIZE = 0 \<and> pg_phy_addr \<ge> phy_addr_start (kernel_pool s)
                \<and> pg_phy_addr < phy_addr_start (user_pool s))
         then Inl ASSERT_failed
         else mfree_kernel_loop (page_table_pte_remove (pfree s pg_phy_addr) vaddr)
                (vaddr + PG_SIZE) n)"

definition mfree_page :: "kstate \<Rightarrow> pool_flags \<Rightarrow> u32 \<Rightarrow> u32 \<Rightarrow> halt + kstate" where
  "mfree_page s pf vaddr pg_cnt =
     (if \<not> (pg_cnt \<ge> 1 \<and> vaddr mod PG_SIZE = 0) then Inl ASSERT_failed
      else
        let pg_phy_addr = addr_v2p s vaddr
        in if \<not> (pg_phy_addr mod PG_SIZE = 0 \<and> pg_phy_addr \<ge> 0x102000) then Inl ASSERT_failed
           else if pg_phy_addr \<ge> phy_addr_start (user_pool s) then
             (case mfree_user_loop s vaddr (unat pg_cnt) of
                Inl e \<Rightarrow> Inl e
              | Inr s1 \<Rightarrow> Inr (vaddr_remove s1 pf vaddr pg_cnt))
           else
             (case mfree_kernel_loop s vaddr (unat pg_cnt) of
                Inl e \<Rightarrow> Inl e
              | Inr s1 \<Rightarrow> Inr (vaddr_remove s1 pf vaddr pg_cnt)))"

section \<open>\<open>sys_free\<close>\<close>

text \<open>
  The loop that unlinks every block of an arena from the free list of its descriptor;
  \<open>block_idx\<close> is the index of the next block, the last argument the number of rounds
  left.
\<close>

fun arena_unlink :: "kstate \<Rightarrow> u32 \<Rightarrow> u32 \<Rightarrow> nat \<Rightarrow> halt + kstate" where
  "arena_unlink s a block_idx 0 = Inr s"
| "arena_unlink s a block_idx (Suc n) =
     (case arena2block s a block_idx of
        None \<Rightarrow> Inl Undefined_access
      | Some b \<Rightarrow>
          (case desc (arenas s a) of
             None \<Rightarrow> Inl Undefined_access
           | Some dp \<Rightarrow>
               (case get_desc s dp of
                  None \<Rightarrow> Inl Undefined_access
                | Some d \<Rightarrow>
                    if \<not> elem_find (free_list d) b then Inl ASSERT_failed
                    else arena_unlink (put_desc s dp (d\<lparr>free_list := list_remove (free_list d) b\<rparr>))
                           a (block_idx + 1) n)))"

definition sys_free :: "kstate \<Rightarrow> u32 \<Rightarrow> halt + kstate" where
  "sys_free s ptr =
     (if ptr = 0 then Inl ASSERT_failed
      else if pgdir (cur s) = 0 \<and> \<not> (ptr \<ge> K_HEAP_START) then Inl ASSERT_failed
      else
        let pf = (if pgdir (cur s) = 0 then PF_KERNEL else PF_USER);
            b = ptr;
            a = block2arena b
        in if desc (arenas s a) = None \<and> large (arenas s a) = True then
             mfree_page s pf a (cnt (arenas s a))
           else
             (case desc (arenas s a) of
                None \<Rightarrow> Inl Undefined_access
              | Some dp \<Rightarrow>
                  (case get_desc s dp of
                     None \<Rightarrow> Inl Undefined_access
                   | Some d \<Rightarrow>
                       let s1 = put_desc s dp (d\<lparr>free_list := list_append (free_list d) b\<rparr>);
                           s2 = s1\<lparr>arenas := (arenas s1)(a := (arenas s1 a)
                                                 \<lparr>cnt := cnt (arenas s1 a) + 1\<rparr>)\<rparr>
                       in if cnt (arenas s2 a) = blocks_per_arena d then
                            (case arena_unlink s2 a 0 (unat (blocks_per_arena d)) of
                               Inl e \<Rightarrow> Inl e
                             | Inr s3 \<Rightarrow> mfree_page s3 pf a 1)
                          else Inr s2)))"


section \<open>Notions used to state the properties\<close>

text \<open>The virtual-address tracker a flag selects: the kernel's, or the running task's.\<close>

definition vaddr_tracker :: "kstate \<Rightarrow> pool_flags \<Rightarrow> virtual_addr" where
  "vaddr_tracker s pf = (if pf = PF_KERNEL then kernel_vaddr s else userprog_vaddr (cur s))"

text \<open>The pool capacity and the owner \<open>sys_malloc\<close> selects from the running task.\<close>

definition owner_flag :: "kstate \<Rightarrow> pool_flags" where
  "owner_flag s = (if pgdir (cur s) = 0 then PF_KERNEL else PF_USER)"

definition owner_pool_size :: "kstate \<Rightarrow> u32" where
  "owner_pool_size s =
     (if pgdir (cur s) = 0 then pool_size (kernel_pool s) else pool_size (user_pool s))"

definition owner_descs :: "kstate \<Rightarrow> desc_array" where
  "owner_descs s = (if pgdir (cur s) = 0 then K_BLOCK_DESCS else U_BLOCK_DESC)"

text \<open>The bitmap with the \<open>n\<close> bits from \<open>i\<close> on set to \<open>v\<close>.\<close>

definition with_run :: "bitmap \<Rightarrow> nat \<Rightarrow> nat \<Rightarrow> bool \<Rightarrow> bitmap" where
  "with_run btmp i n v = btmp\<lparr>bits := (\<lambda>j. if i \<le> j \<and> j < i + n then v else bits btmp j)\<rparr>"

section \<open>Concrete states\<close>

text \<open>
  A small machine right after \<open>mem_init\<close>: 16 frames in each pool behind the 2 MiB the
  kernel reserves, the kernel heap at \<open>K_HEAP_START\<close>, no page table entry present, and a
  kernel thread running.
\<close>

definition free_bitmap :: "u32 \<Rightarrow> bitmap" where
  "free_bitmap len = \<lparr>btmp_bytes_len = len, bits = (\<lambda>_. False)\<rparr>"

definition kernel_thread :: task_struct where
  "kernel_thread = \<lparr>pgdir = 0,
                    userprog_vaddr = \<lparr>vaddr_bitmap = free_bitmap 0, vaddr_start = 0\<rparr>,
                    u_block_desc = []\<rparr>"

definition boot_state :: kstate where
  "boot_state =
     \<lparr>kernel_pool = \<lparr>pool_bitmap = free_bitmap 2, phy_addr_start = 0x200000, pool_size = 0x10000\<rparr>,
      user_pool = \<lparr>pool_bitmap = free_bitmap 2, phy_addr_start = 0x210000, pool_size = 0x10000\<rparr>,
      kernel_vaddr = \<lparr>vaddr_bitmap = free_bitmap 2, vaddr_start = K_HEAP_START\<rparr>,
      k_block_descs = block_desc_init,
      cur = kernel_thread,
      ptmem = (\<lambda>_. 0),
      arenas = (\<lambda>_. zero_arena)\<rparr>"

text \<open>
  The same machine with a user task running, its address space starting at 0x8048000, and
  the first frame of the user pool already in use.
\<close>

definition user_task :: task_struct where
  "user_task = \<lparr>pgdir = 0xc0101000,
                userprog_vaddr = \<lparr>vaddr_bitmap = free_bitmap 2, vaddr_start = 0x8048000\<rparr>,
                u_block_desc = block_desc_init\<rparr>"

definition user_state :: kstate where
  "user_state =
     boot_state\<lparr>cur := user_task,
                user_pool := (user_pool boot_state)
                  \<lparr>pool_bitmap := bitmap_set (free_bitmap 2) 0 True\<rparr>\<rparr>"


text \<open>
  The machine after boot with all but the last two frames of the kernel pool in use, and
  the states a request for three kernel pages goes through: after the reservation of the
  virtual pages, and after the one round of the mapping loop that finds a frame.
\<close>

definition scarce_state :: kstate where
  "scarce_state =
     boot_state\<lparr>kernel_pool := (kernel_pool boot_state)
                  \<lparr>pool_bitmap := \<lparr>btmp_bytes_len = 2, bits = (\<lambda>i. i < 14)\<rparr>\<rparr>\<rparr>"

definition scarce_reserved :: kstate where
  "scarce_reserved = snd (projr (vaddr_get scarce_state PF_KERNEL 3))"

definition scarce_mapped :: kstate where
  "scarce_mapped = snd (projr (malloc_page_loop scarce_reserved PF_KERNEL K_HEAP_START 1))"

section \<open>Facts about 32-bit address arithmetic\<close>

lemma c_fff: "(0xfff::u32) = mask 12" by (simp add: mask_eq_exp_minus_1)
lemma c_fffff000: "(0xfffff000::u32) = NOT (mask 12)" by (simp add: mask_eq_exp_minus_1)
lemma c_ffc00000: "(0xffc00000::u32) = NOT (mask 22)" by (simp add: mask_eq_exp_minus_1)
lemma c_003ff000: "(0x003ff000::u32) = push_bit 12 (mask 10)" by (simp add: mask_eq_exp_minus_1 push_bit_eq_mult)

lemma unat_lt32: "unat (v::u32) < 4294967296"
  using unsigned_less [of v, where 'a = nat] by simp

lemma unat_and_fffff000: "unat ((x::u32) AND 0xfffff000) = (unat x div 4096) * 4096"
proof -
  have e: "x AND 0xfffff000 = push_bit 12 (drop_bit 12 x)"
    unfolding c_fffff000 by (rule bit_word_eqI) (auto simp add: bit_simps)
  have "unat x div 4096 * 4096 < 4294967296" using unat_lt32 [of x] by simp
  then show ?thesis
    unfolding e
    by (simp add: push_bit_eq_mult drop_bit_eq_div unat_word_ariths unat_div)
qed

lemma unat_and_ffc00000: "unat ((x::u32) AND 0xffc00000) = (unat x div 4194304) * 4194304"
proof -
  have e: "x AND 0xffc00000 = push_bit 22 (drop_bit 22 x)"
    unfolding c_ffc00000 by (rule bit_word_eqI) (auto simp add: bit_simps)
  have "unat x div 4194304 * 4194304 < 4294967296" using unat_lt32 [of x] by simp
  then show ?thesis
    unfolding e
    by (simp add: push_bit_eq_mult drop_bit_eq_div unat_word_ariths unat_div)
qed

lemma unat_and_fff: "unat ((x::u32) AND 0xfff) = unat x mod 4096"
  unfolding c_fff
  by (simp add: unsigned_take_bit_eq take_bit_eq_mod unat_mod flip: take_bit_eq_mask)

lemma unat_PDE_IDX: "unat (PDE_IDX v) = unat v div 4194304"
  unfolding PDE_IDX_def
  by (simp add: unat_drop_bit_eq drop_bit_eq_div unat_div unat_and_ffc00000)

lemma unat_PTE_IDX: "unat (PTE_IDX v) = (unat v div 4096) mod 1024"
proof -
  have "PTE_IDX v = take_bit 10 (drop_bit 12 v)"
    unfolding PTE_IDX_def c_003ff000
    by (rule bit_word_eqI) (auto simp add: bit_simps dest: bit_imp_le_length)
  then show ?thesis
    by (simp add: unsigned_take_bit_eq unat_drop_bit_eq drop_bit_eq_div take_bit_eq_mod unat_div unat_mod)
qed

lemma unat_pte_ptr: "unat (pte_ptr v) = 4290772992 + 4 * (unat v div 4096)"
proof -
  let ?q = "unat v div 4096"
  define A where "A = drop_bit 10 (v AND 0xffc00000)"
  define B where "B = PTE_IDX v"
  have d: "unat v div 4194304 = ?q div 1024"
    by (simp add: div_mult2_eq [symmetric])
  have l: "?q < 1048576" using unat_lt32 [of v] by simp
  have e: "(?q div 1024) * 4096 + (?q mod 1024) * 4 = 4 * ?q"
    using mult_div_mod_eq [of 1024 ?q] by linarith
  have p: "unat A = (?q div 1024) * 4096"
  proof -
    have "unat A = unat (v AND 0xffc00000) div 1024"
      unfolding A_def by (simp add: drop_bit_eq_div unat_div)
    then show ?thesis by (simp add: unat_and_ffc00000 d)
  qed
  have q: "unat B = ?q mod 1024"
    unfolding B_def by (rule unat_PTE_IDX)
  have "pte_ptr v = 0xffc00000 + A + B * 4"
    by (simp add: pte_ptr_def A_def B_def)
  then show ?thesis
    using l e
    by (simp add: unat_word_ariths p q)
qed

lemma unat_pde_ptr: "unat (pde_ptr v) = 4294963200 + 4 * (unat v div 4194304)"
proof -
  have b: "unat v div 4194304 < 1024" using unat_lt32 [of v] by simp
  show ?thesis
    unfolding pde_ptr_def
    using b
    by (simp add: unat_word_ariths unat_PDE_IDX)
qed

lemma in_page: "(x::u32) - (x AND 0xfffff000) < 0x1000"
proof -
  have "x AND 0xfffff000 \<le> x" by (simp add: word_and_le2)
  then have "unat (x - (x AND 0xfffff000)) = unat x - unat (x AND 0xfffff000)"
    by (simp add: unat_sub)
  moreover have "unat x - (unat x div 4096) * 4096 = unat x mod 4096"
    by (simp add: minus_div_mult_eq_mod)
  ultimately show ?thesis by (simp add: word_less_nat_alt unat_and_fffff000) 
qed

lemma entry_bits: "p OR PG_US_U OR PG_RW_W OR PG_P_1 = p OR 7"
  by (simp add: PG_US_U_def PG_RW_W_def PG_P_1_def or.assoc)

lemma frame_of_entry: "(p::u32) AND 0xfff = 0 \<Longrightarrow> (p OR 7) AND 0xfffff000 = p"
proof -
  assume a: "p AND 0xfff = 0"
  have t: "p OR 7 = p OR mask 3" by (simp add: mask_eq_exp_minus_1)
  have h: "\<not> bit (p AND mask 12) n" for n using a by (simp add: c_fff)
  have b: "n < 12 \<Longrightarrow> \<not> bit p n" for n
    using h [of n] bit_imp_le_length [of p n] by (auto simp add: bit_simps not_le)
  show ?thesis
    unfolding t c_fffff000
    by (rule bit_word_eqI) (use b in \<open>auto simp add: bit_simps\<close>)
qed

lemma entry_present: "((p::u32) OR 7) AND 1 = 1"
  by (simp add: and_one_eq mod_2_eq_odd even_or_iff)

lemma palloc_cases:
  obtains p kp where "palloc m_pool = (p, kp)"
  by (cases "palloc m_pool") auto

section \<open>The capacity tracker: scanning and marking\<close>

lemma bitmap_set_run_eq: "bitmap_set_run btmp start v n = with_run btmp start n v"
proof (induction n arbitrary: btmp start)
  case 0
  have "(\<lambda>j. if start \<le> j \<and> j < start + 0 then v else bits btmp j) = bits btmp"
    by (auto simp add: fun_eq_iff)
  then show ?case by (simp add: with_run_def)
next
  case (Suc n)
  have "with_run (bitmap_set btmp start v) (Suc start) n v = with_run btmp start (Suc n) v"
    by (auto simp add: with_run_def bitmap_set_def fun_eq_iff)
  with Suc show ?case by simp
qed

lemma bitmap_scan_None:
  "bitmap_scan btmp n = None \<longleftrightarrow> (\<forall>i < bitmap_bits btmp. \<not> run_free btmp n i)"
  by (auto simp add: bitmap_scan_def find_None_iff)

lemma bitmap_scan_Some:
  "bitmap_scan btmp n = Some i \<longleftrightarrow>
     i < bitmap_bits btmp \<and> run_free btmp n i \<and> (\<forall>j < i. \<not> run_free btmp n j)"
  by (auto simp add: bitmap_scan_def find_Some_iff)

lemma run_free_in_range: "0 < n \<Longrightarrow> run_free btmp n i \<Longrightarrow> i < bitmap_bits btmp"
  by (simp add: run_free_def)

text \<open>
  Claim C7. A kernel reservation of \<open>pg_cnt\<close> pages (\<open>vaddr_get\<close> with \<open>PF_KERNEL\<close>, called
  by \<open>malloc_page\<close> with \<open>pg_cnt > 0\<close>): if the tracker has \<open>pg_cnt\<close> contiguous free bits,
  the bits of such a run are marked used and the address returned is the tracker base plus
  the start index times the page size; if it has none, \<open>NULL\<close> is returned and the state,
  the tracker with it, is unchanged.
\<close>

theorem vaddr_get_kernel:
  assumes "pg_cnt \<noteq> 0"
  shows "if \<exists>i. run_free (vaddr_bitmap (kernel_vaddr s)) (unat pg_cnt) i
         then \<exists>i. run_free (vaddr_bitmap (kernel_vaddr s)) (unat pg_cnt) i \<and>
                  vaddr_get s PF_KERNEL pg_cnt =
                    Inr (vaddr_start (kernel_vaddr s) + of_nat i * PG_SIZE,
                         s\<lparr>kernel_vaddr := (kernel_vaddr s)
                            \<lparr>vaddr_bitmap := with_run (vaddr_bitmap (kernel_vaddr s)) i
                                               (unat pg_cnt) True\<rparr>\<rparr>)
         else vaddr_get s PF_KERNEL pg_cnt = Inr (0, s)"
proof -
  let ?bm = "vaddr_bitmap (kernel_vaddr s)"
  let ?n = "unat pg_cnt"
  have n: "0 < ?n" using assms by (simp add: unat_gt_0)
  show ?thesis
  proof (cases "bitmap_scan ?bm ?n")
    case None
    then have "\<not> (\<exists>i. run_free ?bm ?n i)"
      using run_free_in_range [OF n] by (auto simp add: bitmap_scan_None)
    with None show ?thesis by (simp add: vaddr_get_def)
  next
    case (Some i)
    then have r: "run_free ?bm ?n i" by (simp add: bitmap_scan_Some)
    then have "\<exists>i. run_free ?bm ?n i" by blast
    moreover have "vaddr_get s PF_KERNEL pg_cnt =
                    Inr (vaddr_start (kernel_vaddr s) + of_nat i * PG_SIZE,
                         s\<lparr>kernel_vaddr := (kernel_vaddr s)
                            \<lparr>vaddr_bitmap := with_run ?bm i ?n True\<rparr>\<rparr>)"
      using Some by (simp add: vaddr_get_def bitmap_set_run_eq)
    ultimately show ?thesis using r by auto
  qed
qed

theorem vaddr_get_kernel_witness:
  "(\<exists>i. run_free (vaddr_bitmap (kernel_vaddr boot_state)) (unat (3::u32)) i) \<and>
   (\<exists>i. vaddr_get boot_state PF_KERNEL 3 =
      Inr (K_HEAP_START + of_nat i * PG_SIZE,
           boot_state\<lparr>kernel_vaddr := (kernel_vaddr boot_state)
             \<lparr>vaddr_bitmap := with_run (vaddr_bitmap (kernel_vaddr boot_state)) i 3 True\<rparr>\<rparr>)) \<and>
   \<not> (\<exists>i. run_free (vaddr_bitmap (kernel_vaddr boot_state)) (unat (17::u32)) i) \<and>
   vaddr_get boot_state PF_KERNEL 17 = Inr (0, boot_state)"
proof -
  have e: "\<exists>i. run_free (vaddr_bitmap (kernel_vaddr boot_state)) (unat (3::u32)) i"
    by (rule exI [of _ 0])
      (simp add: run_free_def bitmap_bits_def boot_state_def free_bitmap_def)
  have f: "\<not> (\<exists>i. run_free (vaddr_bitmap (kernel_vaddr boot_state)) (unat (17::u32)) i)"
    by (simp add: run_free_def bitmap_bits_def boot_state_def free_bitmap_def)
  have s: "vaddr_start (kernel_vaddr boot_state) = K_HEAP_START"
    by (simp add: boot_state_def)
  show ?thesis
    using e f vaddr_get_kernel [where pg_cnt = 3 and s = boot_state]
      vaddr_get_kernel [where pg_cnt = 17 and s = boot_state]
    by (auto simp add: s)
qed

section \<open>Frames and page-table entries\<close>

lemma sint_page_index: "0 < sint ((x::u32) div PG_SIZE) \<longleftrightarrow> x div PG_SIZE \<noteq> 0"
proof -
  define y where "y = x div PG_SIZE"
  have u: "unat y = unat x div 4096" by (simp add: y_def PG_SIZE_def unat_div)
  have "unat x div 4096 < 1048576" using unat_lt32 [of x] by simp
  then have "unat y < 1048576" unfolding u .
  then have "int (unat y) < 2147483648" by linarith
  then have b: "uint y < 2147483648" by (simp only: uint_nat)
  have "(0::int) \<le> uint y" by simp
  then have c: "- (2 ^ 31) \<le> uint y" by (rule order_trans [rotated]) simp
  have "signed_take_bit 31 (uint y) = uint y"
    by (rule signed_take_bit_int_eq_self [OF c]) (use b in simp)
  then have "sint y = uint y"
    by (simp add: sint_uint)
  moreover have "0 < uint y \<longleftrightarrow> y \<noteq> 0"
    by (simp add: word_neq_0_conv word_less_def)
  ultimately show ?thesis unfolding y_def by simp
qed

lemma palloc_Some:
  "bitmap_scan (pool_bitmap p) 1 = Some j \<Longrightarrow>
   palloc p = (of_nat j * PG_SIZE + phy_addr_start p,
               p\<lparr>pool_bitmap := bitmap_set (pool_bitmap p) j True\<rparr>)"
  by (simp add: palloc_def)

lemma palloc_None: "bitmap_scan (pool_bitmap p) 1 = None \<Longrightarrow> palloc p = (0, p)"
  by (simp add: palloc_def)

lemma palloc_keeps_bits:
  "bits (pool_bitmap p) j \<Longrightarrow> bits (pool_bitmap (snd (palloc p))) j"
  by (simp add: palloc_def bitmap_set_def split: option.splits)

lemma palloc_fields:
  "phy_addr_start (snd (palloc p)) = phy_addr_start p"
  "pool_size (snd (palloc p)) = pool_size p"
  by (simp_all add: palloc_def split: option.splits)

lemma page_table_add_cases:
  assumes "page_table_add s vaddr page_phyaddr = Inr s'"
  shows "(ptmem s (pde_ptr vaddr) AND 1 \<noteq> 0 \<and> ptmem s (pte_ptr vaddr) AND 1 = 0 \<and>
          s' = s\<lparr>ptmem := (ptmem s)(pte_ptr vaddr := page_phyaddr OR 7)\<rparr>) \<or>
         (ptmem s (pde_ptr vaddr) AND 1 = 0 \<and>
          s' = s\<lparr>kernel_pool := snd (palloc (kernel_pool s)),
                 ptmem := (memset_words ((ptmem s)(pde_ptr vaddr := fst (palloc (kernel_pool s)) OR 7))
                            (pte_ptr vaddr AND 0xfffff000) PG_SIZE)
                          (pte_ptr vaddr := page_phyaddr OR 7)\<rparr>)"
  using assms
  by (auto simp add: page_table_add_def Let_def entry_bits split: if_splits prod.splits)

lemma page_table_add_unchanged:
  assumes "page_table_add s vaddr page_phyaddr = Inr s'"
  shows "user_pool s' = user_pool s" "kernel_vaddr s' = kernel_vaddr s" "cur s' = cur s"
    "k_block_descs s' = k_block_descs s" "arenas s' = arenas s"
  using page_table_add_cases [OF assms] by auto

lemma page_table_add_keeps_bits:
  assumes "page_table_add s vaddr page_phyaddr = Inr s'"
    and "bits (pool_bitmap (mem_pool_of s pf)) j"
  shows "bits (pool_bitmap (mem_pool_of s' pf)) j"
  using page_table_add_cases [OF assms(1)] assms(2) palloc_keeps_bits [of "kernel_pool s" j]
  by (auto simp add: mem_pool_of_def)

lemma page_table_add_entry:
  assumes "page_table_add s vaddr page_phyaddr = Inr s'"
  shows "ptmem s' (pte_ptr vaddr) = page_phyaddr OR 7"
  using page_table_add_cases [OF assms] by auto

lemma page_table_add_returns:
  assumes "ptmem s (pde_ptr vaddr) AND 1 \<noteq> 0 \<longrightarrow> ptmem s (pte_ptr vaddr) AND 1 = 0"
  shows "\<exists>s'. page_table_add s vaddr page_phyaddr = Inr s'"
proof (cases "ptmem s (pde_ptr vaddr) AND 1 \<noteq> 0")
  case True
  with assms show ?thesis by (simp add: page_table_add_def Let_def)
next
  case False
  have z: "memset_words m (pte_ptr vaddr AND 0xfffff000) PG_SIZE (pte_ptr vaddr) = 0" for m
    using in_page [of "pte_ptr vaddr"] by (simp add: memset_words_def PG_SIZE_def)
  from False show ?thesis
    by (simp add: page_table_add_def Let_def z split: prod.splits)
qed

section \<open>Installing a mapping and translating back\<close>

text \<open>
  Claim C1. For a page-aligned physical address and a virtual address that is not mapped
  yet (\<open>page_table_add\<close> asserts it), \<open>page_table_add\<close> returns, and \<open>addr_v2p\<close> on the
  state it leaves gives the frame of the physical address with the low 12 bits of the
  virtual address. The virtual address may be any, inside a reserved range or not.
\<close>

theorem addr_v2p_after_page_table_add:
  assumes "page_phyaddr AND 0xfff = 0"
    and "ptmem s (pde_ptr vaddr) AND 1 \<noteq> 0 \<longrightarrow> ptmem s (pte_ptr vaddr) AND 1 = 0"
  shows "\<exists>s'. page_table_add s vaddr page_phyaddr = Inr s' \<and>
              addr_v2p s' vaddr = page_phyaddr + (vaddr AND 0xfff)"
proof (cases "ptmem s (pde_ptr vaddr) AND 1 \<noteq> 0")
  case True
  with assms(2) have "ptmem s (pte_ptr vaddr) AND 1 = 0" by simp
  with True show ?thesis
    by (simp add: page_table_add_def Let_def addr_v2p_def entry_bits
        frame_of_entry [OF assms(1)])
next
  case False
  obtain p kp where pa: "palloc (kernel_pool s) = (p, kp)" by (rule palloc_cases)
  have z: "memset_words m (pte_ptr vaddr AND 0xfffff000) PG_SIZE (pte_ptr vaddr) = 0" for m
    using in_page [of "pte_ptr vaddr"] by (simp add: memset_words_def PG_SIZE_def)
  from False show ?thesis
    by (simp add: page_table_add_def Let_def pa z addr_v2p_def entry_bits
        frame_of_entry [OF assms(1)])
qed

theorem addr_v2p_after_page_table_add_witness:
  "(0x201000::u32) AND 0xfff = 0 \<and>
   (\<exists>s'. page_table_add boot_state 0xc0100abc 0x201000 = Inr s' \<and>
         addr_v2p s' 0xc0100abc = 0x201abc)"
  using addr_v2p_after_page_table_add
    [where page_phyaddr = "0x201000" and s = boot_state and vaddr = "0xc0100abc"]
  by (simp add: boot_state_def)

section \<open>The size classes\<close>

lemma DESC_CNT_Suc: "DESC_CNT = Suc (Suc (Suc (Suc (Suc (Suc (Suc 0))))))"
  by (simp add: DESC_CNT_def eval_nat_numeral)

lemma block_desc_init_eq:
  "block_desc_init =
     [\<lparr>block_size = 16, blocks_per_arena = 255, free_list = []\<rparr>,
      \<lparr>block_size = 32, blocks_per_arena = 127, free_list = []\<rparr>,
      \<lparr>block_size = 64, blocks_per_arena = 63, free_list = []\<rparr>,
      \<lparr>block_size = 128, blocks_per_arena = 31, free_list = []\<rparr>,
      \<lparr>block_size = 256, blocks_per_arena = 15, free_list = []\<rparr>,
      \<lparr>block_size = 512, blocks_per_arena = 7, free_list = []\<rparr>,
      \<lparr>block_size = 1024, blocks_per_arena = 3, free_list = []\<rparr>]"
  unfolding block_desc_init_def DESC_CNT_Suc
  by (simp add: PG_SIZE_def sizeof_arena_def)

lemma desc_idx_of_init:
  "desc_idx_of block_desc_init sz =
     (if sz \<le> 16 then 0 else if sz \<le> 32 then 1 else if sz \<le> 64 then 2 else if sz \<le> 128 then 3
      else if sz \<le> 256 then 4 else if sz \<le> 512 then 5 else if sz \<le> 1024 then 6 else 7)"
  unfolding desc_idx_of_def DESC_CNT_Suc
  by (simp add: block_desc_init_eq)

text \<open>
  Claim C9. For requested sizes \<open>s1 < s2\<close>, both at most the threshold of 1024 bytes, the
  class \<open>sys_malloc\<close> chooses for \<open>s1\<close> (the first class of \<open>block_desc_init\<close> whose block
  size is at least the request) has a block size no larger than the class chosen for
  \<open>s2\<close>.
\<close>

theorem size_class_monotone:
  "s1 < s2 \<Longrightarrow> s2 \<le> 1024 \<Longrightarrow>
   block_size (block_desc_init ! desc_idx_of block_desc_init s1)
     \<le> block_size (block_desc_init ! desc_idx_of block_desc_init s2)"
  unfolding desc_idx_of_init
  by (simp add: block_desc_init_eq) (auto simp add: word_le_nat_alt word_less_nat_alt)

theorem size_class_monotone_witness:
  "(40::u32) < 100 \<and> (100::u32) \<le> 1024 \<and>
   block_size (block_desc_init ! desc_idx_of block_desc_init 40) = 64 \<and>
   block_size (block_desc_init ! desc_idx_of block_desc_init 100) = 128"
  using size_class_monotone [of 40 100]
  unfolding desc_idx_of_init
  by (simp add: block_desc_init_eq)

section \<open>Requests \<open>sys_malloc\<close> rejects\<close>

text \<open>
  Claim C8. \<open>sys_malloc\<close> returns \<open>NULL\<close> and leaves the whole state as it was when the
  size is 0 or is at least the byte capacity of the pool of the running task.
\<close>

theorem sys_malloc_rejects:
  "sz = 0 \<or> sz \<ge> owner_pool_size s \<Longrightarrow> sys_malloc s sz = Inr (0, s)"
  by (auto simp add: sys_malloc_def owner_pool_size_def Let_def)

theorem sys_malloc_rejects_witness:
  "sys_malloc boot_state 0 = Inr (0, boot_state) \<and>
   owner_pool_size boot_state = 0x10000 \<and>
   sys_malloc boot_state 0x10000 = Inr (0, boot_state)"
  using sys_malloc_rejects [where sz = 0 and s = boot_state]
    sys_malloc_rejects [where sz = "0x10000" and s = boot_state]
  by (simp add: owner_pool_size_def boot_state_def kernel_thread_def)

section \<open>The boundary between the two branches of \<open>sys_malloc\<close>\<close>

lemma DIV_ROUND_UP_pages:
  assumes "unat x + 4095 < 4294967296"
  shows "unat (DIV_ROUND_UP x PG_SIZE) = (unat x + 4095) div 4096"
proof -
  define y where "y = x + PG_SIZE - 1"
  have "y = x + 4095" by (simp add: y_def PG_SIZE_def)
  then have "unat y = unat x + 4095"
    using assms by (simp add: unat_word_ariths)
  moreover have "unat (DIV_ROUND_UP x PG_SIZE) = unat y div 4096"
    unfolding DIV_ROUND_UP_def y_def [symmetric] by (simp add: unat_div PG_SIZE_def)
  ultimately show ?thesis by simp
qed

lemma sys_malloc_large_result:
  assumes "sys_malloc_large s pf sz = Inr (ptr, s')" and "ptr \<noteq> 0"
  shows "\<exists>a s1. malloc_page s pf (DIV_ROUND_UP (sz + sizeof_arena) PG_SIZE) = Inr (a, s1) \<and>
               a \<noteq> 0 \<and> ptr = a + sizeof_arena \<and>
               arenas s' a = \<lparr>desc = None, cnt = DIV_ROUND_UP (sz + sizeof_arena) PG_SIZE,
                               large = True\<rparr>"
  using assms
  by (auto simp add: sys_malloc_large_def Let_def split: sum.splits if_splits)

text \<open>
  Claim C4. Among the sizes \<open>sys_malloc\<close> accepts, a request of exactly 1024 bytes takes the
  branch of the size classes, where it is served from the class of index 6, whose blocks
  are 1024 bytes; a request of 1025 bytes or more takes the branch that allocates whole
  pages, and the address it returns lies behind a header stamped as a large arena.
\<close>

theorem sys_malloc_boundary:
  "(1024 < owner_pool_size s \<longrightarrow>
      sys_malloc s 1024 = sys_malloc_small s (owner_flag s) (owner_descs s) 1024) \<and>
   desc_idx_of block_desc_init 1024 = 6 \<and> block_size (block_desc_init ! 6) = 1024 \<and>
   (1025 \<le> sz \<and> sz < owner_pool_size s \<longrightarrow>
      sys_malloc s sz = sys_malloc_large s (owner_flag s) sz \<and>
      (\<forall>ptr s'. sys_malloc s sz = Inr (ptr, s') \<and> ptr \<noteq> 0 \<longrightarrow>
         desc (arenas s' (ptr - sizeof_arena)) = None \<and> large (arenas s' (ptr - sizeof_arena))))"
proof -
  have small: "sys_malloc s 1024 = sys_malloc_small s (owner_flag s) (owner_descs s) 1024"
    if "1024 < owner_pool_size s"
    using that
    by (auto simp add: sys_malloc_def owner_pool_size_def owner_flag_def owner_descs_def Let_def
        word_le_nat_alt word_less_nat_alt)
  have cls: "desc_idx_of block_desc_init 1024 = 6 \<and> block_size (block_desc_init ! 6) = 1024"
    unfolding desc_idx_of_init by (simp add: block_desc_init_eq)
  have large: "sys_malloc s sz = sys_malloc_large s (owner_flag s) sz"
    if "1025 \<le> sz \<and> sz < owner_pool_size s"
    using that
    by (auto simp add: sys_malloc_def owner_pool_size_def owner_flag_def owner_descs_def Let_def
        word_le_nat_alt word_less_nat_alt)
  have hdr: "desc (arenas s' (ptr - sizeof_arena)) = None \<and> large (arenas s' (ptr - sizeof_arena))"
    if "1025 \<le> sz \<and> sz < owner_pool_size s" and "sys_malloc s sz = Inr (ptr, s')" and "ptr \<noteq> 0"
    for ptr s'
  proof -
    from that have "sys_malloc_large s (owner_flag s) sz = Inr (ptr, s')" by (simp add: large)
    from sys_malloc_large_result [OF this that(3)] show ?thesis by auto
  qed
  from small cls large hdr show ?thesis by blast
qed

theorem sys_malloc_boundary_witness:
  "1024 < owner_pool_size boot_state \<and>
   sys_malloc boot_state 1024 = sys_malloc_small boot_state PF_KERNEL K_BLOCK_DESCS 1024 \<and>
   sys_malloc boot_state 1025 = sys_malloc_large boot_state PF_KERNEL 1025 \<and>
   (case sys_malloc boot_state 1024 of
      Inl e \<Rightarrow> False
    | Inr (ptr, s') \<Rightarrow> ptr = 0xc010000c \<and> \<not> large (arenas s' (block2arena ptr)) \<and>
                      desc (arenas s' (block2arena ptr)) = Some (K_BLOCK_DESCS, 6)) \<and>
   (case sys_malloc boot_state 1025 of
      Inl e \<Rightarrow> False
    | Inr (ptr, s') \<Rightarrow> ptr = 0xc010000c \<and> large (arenas s' (ptr - sizeof_arena)) \<and>
                      desc (arenas s' (ptr - sizeof_arena)) = None)"
proof -
  have a: "1024 < owner_pool_size boot_state \<and>
           sys_malloc boot_state 1024 = sys_malloc_small boot_state PF_KERNEL K_BLOCK_DESCS 1024 \<and>
           sys_malloc boot_state 1025 = sys_malloc_large boot_state PF_KERNEL 1025"
    using sys_malloc_boundary [where s = boot_state and sz = 1025]
    by (simp add: owner_pool_size_def owner_flag_def owner_descs_def boot_state_def
        kernel_thread_def)
  have b: "(case sys_malloc boot_state 1024 of
      Inl e \<Rightarrow> False
    | Inr (ptr, s') \<Rightarrow> ptr = 0xc010000c \<and> \<not> large (arenas s' (block2arena ptr)) \<and>
                      desc (arenas s' (block2arena ptr)) = Some (K_BLOCK_DESCS, 6))"
    by code_simp
  have c: "(case sys_malloc boot_state 1025 of
      Inl e \<Rightarrow> False
    | Inr (ptr, s') \<Rightarrow> ptr = 0xc010000c \<and> large (arenas s' (ptr - sizeof_arena)) \<and>
                      desc (arenas s' (ptr - sizeof_arena)) = None)"
    by code_simp
  from a b c show ?thesis by blast
qed

section \<open>\<open>get_a_page\<close>\<close>

text \<open>
  Claim C10. When the context of the caller matches the pool (a user task with \<open>PF_USER\<close>,
  a kernel thread with \<open>PF_KERNEL\<close>) and \<open>vaddr\<close> lies on the first page of the tracker's
  range, so that the bit index is 0, the assertion \<open>bit_idx > 0\<close> fails and \<open>get_a_page\<close>
  halts.
\<close>

theorem get_a_page_first_page:
  "pgdir (cur s) \<noteq> 0 \<and> pf = PF_USER \<or> pgdir (cur s) = 0 \<and> pf = PF_KERNEL \<Longrightarrow>
   (vaddr - vaddr_start (vaddr_tracker s pf)) div PG_SIZE = 0 \<Longrightarrow>
   get_a_page s pf vaddr = Inl ASSERT_failed"
  by (auto simp add: get_a_page_def vaddr_tracker_def Let_def)

theorem get_a_page_first_page_witness:
  "pgdir (cur boot_state) = 0 \<and>
   (K_HEAP_START + 0x123 - vaddr_start (vaddr_tracker boot_state PF_KERNEL)) div PG_SIZE = 0 \<and>
   get_a_page boot_state PF_KERNEL (K_HEAP_START + 0x123) = Inl ASSERT_failed"
  using get_a_page_first_page
    [where s = boot_state and pf = PF_KERNEL and vaddr = "K_HEAP_START + 0x123"]
  by (simp add: boot_state_def kernel_thread_def vaddr_tracker_def K_HEAP_START_def PG_SIZE_def)

lemma get_a_page_matching:
  assumes ctx: "pgdir (cur s) \<noteq> 0 \<and> pf = PF_USER \<or> pgdir (cur s) = 0 \<and> pf = PF_KERNEL"
    and idx: "(vaddr - vaddr_start (vaddr_tracker s pf)) div PG_SIZE = bit_idx" "bit_idx \<noteq> 0"
    and unmapped: "ptmem s (pde_ptr vaddr) AND 1 \<noteq> 0 \<longrightarrow> ptmem s (pte_ptr vaddr) AND 1 = 0"
  shows "case bitmap_scan (pool_bitmap (mem_pool_of s pf)) 1 of
           None \<Rightarrow> \<exists>s'. get_a_page s pf vaddr = Inr (0, s') \<and>
                         bits (vaddr_bitmap (vaddr_tracker s' pf)) (unat bit_idx)
         | Some j \<Rightarrow>
             if of_nat j * PG_SIZE + phy_addr_start (mem_pool_of s pf) = 0
             then \<exists>s'. get_a_page s pf vaddr = Inr (0, s')
             else \<exists>s'. get_a_page s pf vaddr = Inr (vaddr, s') \<and>
                       bits (vaddr_bitmap (vaddr_tracker s' pf)) (unat bit_idx) \<and>
                       bits (pool_bitmap (mem_pool_of s' pf)) j \<and>
                       ptmem s' (pte_ptr vaddr) =
                         (of_nat j * PG_SIZE + phy_addr_start (mem_pool_of s pf)) OR 7"
proof -
  define s1 where "s1 =
    (if pf = PF_USER
     then s\<lparr>cur := (cur s)\<lparr>userprog_vaddr := (userprog_vaddr (cur s))
            \<lparr>vaddr_bitmap := bitmap_set (vaddr_bitmap (userprog_vaddr (cur s))) (unat bit_idx) True\<rparr>\<rparr>\<rparr>
     else s\<lparr>kernel_vaddr := (kernel_vaddr s)
            \<lparr>vaddr_bitmap := bitmap_set (vaddr_bitmap (kernel_vaddr s)) (unat bit_idx) True\<rparr>\<rparr>)"
  have pos: "0 < sint ((vaddr - vaddr_start (vaddr_tracker s pf)) div PG_SIZE)"
    using idx(2) sint_page_index [of "vaddr - vaddr_start (vaddr_tracker s pf)"]
    unfolding idx(1) by simp
  have g: "get_a_page s pf vaddr =
      (let (page_phyaddr, p) = palloc (mem_pool_of s1 pf);
           s2 = set_mem_pool s1 pf p
       in if page_phyaddr = 0 then Inr (0, s2)
          else case page_table_add s2 vaddr page_phyaddr of
                 Inl e \<Rightarrow> Inl e
               | Inr s3 \<Rightarrow> Inr (vaddr, s3))"
    using ctx pos idx(1) by (auto simp add: get_a_page_def s1_def vaddr_tracker_def Let_def)
  have p1: "mem_pool_of s1 pf = mem_pool_of s pf" by (simp add: s1_def mem_pool_of_def)
  have m1: "bits (vaddr_bitmap (vaddr_tracker s1 pf)) (unat bit_idx)"
    by (cases pf) (simp_all add: s1_def vaddr_tracker_def bitmap_set_def)
  have t2: "vaddr_tracker (set_mem_pool s1 pf p) pf = vaddr_tracker s1 pf" for p
    by (simp add: set_mem_pool_def vaddr_tracker_def)
  have pt2: "ptmem (set_mem_pool s1 pf p) = ptmem s" for p
    by (simp add: set_mem_pool_def s1_def)
  have mp2: "mem_pool_of (set_mem_pool s1 pf p) pf = p" for p
    by (simp add: set_mem_pool_def mem_pool_of_def)
  show ?thesis
  proof (cases "bitmap_scan (pool_bitmap (mem_pool_of s pf)) 1")
    case None
    then show ?thesis
      using m1 by (simp add: g p1 palloc_None t2)
  next
    case (Some j)
    let ?p = "of_nat j * PG_SIZE + phy_addr_start (mem_pool_of s pf)"
    let ?kp = "(mem_pool_of s pf)\<lparr>pool_bitmap := bitmap_set (pool_bitmap (mem_pool_of s pf)) j True\<rparr>"
    let ?s2 = "set_mem_pool s1 pf ?kp"
    show ?thesis
    proof (cases "?p = 0")
      case True
      with Some show ?thesis by (simp add: g p1 palloc_Some)
    next
      case False
      obtain s3 where s3: "page_table_add ?s2 vaddr ?p = Inr s3"
        using page_table_add_returns [of ?s2 vaddr ?p] unmapped by (auto simp add: pt2)
      have r: "get_a_page s pf vaddr = Inr (vaddr, s3)"
        using Some False s3 by (simp add: g p1 palloc_Some)
      have "vaddr_tracker s3 pf = vaddr_tracker ?s2 pf"
        using page_table_add_unchanged [OF s3] by (simp add: vaddr_tracker_def)
      then have a: "bits (vaddr_bitmap (vaddr_tracker s3 pf)) (unat bit_idx)"
        using m1 by (simp add: t2)
      have "bits (pool_bitmap (mem_pool_of ?s2 pf)) j"
        by (simp add: mp2 bitmap_set_def)
      then have b: "bits (pool_bitmap (mem_pool_of s3 pf)) j"
        by (rule page_table_add_keeps_bits [OF s3])
      have c: "ptmem s3 (pte_ptr vaddr) = ?p OR 7"
        by (rule page_table_add_entry [OF s3])
      show ?thesis using Some False r a b c by simp
    qed
  qed
qed

lemma get_a_page_mixed:
  "pgdir (cur s) = 0 \<and> pf = PF_USER \<or> pgdir (cur s) \<noteq> 0 \<and> pf = PF_KERNEL \<Longrightarrow>
   get_a_page s pf vaddr = Inl PANIC_raised"
  by (auto simp add: get_a_page_def Let_def)

text \<open>
  Claim C6 as stated fails: with a matching context, a \<open>vaddr\<close> on the first page of the
  tracker's range does not get a page, the call halts.
\<close>

theorem get_a_page_matching_counterexample:
  "pgdir (cur boot_state) = 0 \<and>
   get_a_page boot_state PF_KERNEL K_HEAP_START = Inl ASSERT_failed"
  by (simp add: get_a_page_def boot_state_def kernel_thread_def K_HEAP_START_def PG_SIZE_def)

text \<open>
  Claim C6, amended. When the context of the caller matches the pool, \<open>vaddr\<close> lies at least
  one page above the base of the tracker (the bit index is not 0) and \<open>vaddr\<close> is not
  mapped yet, \<open>get_a_page\<close> marks the tracker bit of \<open>vaddr\<close> and asks the pool for one
  frame: if the pool has a free frame, at an address other than 0, the frame is marked
  allocated, the mapping of \<open>vaddr\<close> to it is installed and \<open>vaddr\<close> is returned; if the
  pool has none, \<open>NULL\<close> is returned and the tracker bit stays marked. When the kinds are
  mixed (the kernel pool from a user task, the user pool from a kernel thread) the call
  halts with a \<open>PANIC\<close>.
\<close>

theorem get_a_page_amended:
  "((pgdir (cur s) \<noteq> 0 \<and> pf = PF_USER \<or> pgdir (cur s) = 0 \<and> pf = PF_KERNEL) \<and>
    (vaddr - vaddr_start (vaddr_tracker s pf)) div PG_SIZE = bit_idx \<and> bit_idx \<noteq> 0 \<and>
    (ptmem s (pde_ptr vaddr) AND 1 \<noteq> 0 \<longrightarrow> ptmem s (pte_ptr vaddr) AND 1 = 0)
    \<longrightarrow> (case bitmap_scan (pool_bitmap (mem_pool_of s pf)) 1 of
           None \<Rightarrow> \<exists>s'. get_a_page s pf vaddr = Inr (0, s') \<and>
                         bits (vaddr_bitmap (vaddr_tracker s' pf)) (unat bit_idx)
         | Some j \<Rightarrow>
             if of_nat j * PG_SIZE + phy_addr_start (mem_pool_of s pf) = 0
             then \<exists>s'. get_a_page s pf vaddr = Inr (0, s')
             else \<exists>s'. get_a_page s pf vaddr = Inr (vaddr, s') \<and>
                       bits (vaddr_bitmap (vaddr_tracker s' pf)) (unat bit_idx) \<and>
                       bits (pool_bitmap (mem_pool_of s' pf)) j \<and>
                       ptmem s' (pte_ptr vaddr) =
                         (of_nat j * PG_SIZE + phy_addr_start (mem_pool_of s pf)) OR 7))
   \<and> (pgdir (cur s) = 0 \<and> pf = PF_USER \<or> pgdir (cur s) \<noteq> 0 \<and> pf = PF_KERNEL
        \<longrightarrow> get_a_page s pf vaddr = Inl PANIC_raised)"
proof (intro conjI impI)
  assume a: "(pgdir (cur s) \<noteq> 0 \<and> pf = PF_USER \<or> pgdir (cur s) = 0 \<and> pf = PF_KERNEL) \<and>
    (vaddr - vaddr_start (vaddr_tracker s pf)) div PG_SIZE = bit_idx \<and> bit_idx \<noteq> 0 \<and>
    (ptmem s (pde_ptr vaddr) AND 1 \<noteq> 0 \<longrightarrow> ptmem s (pte_ptr vaddr) AND 1 = 0)"
  show "case bitmap_scan (pool_bitmap (mem_pool_of s pf)) 1 of
           None \<Rightarrow> \<exists>s'. get_a_page s pf vaddr = Inr (0, s') \<and>
                         bits (vaddr_bitmap (vaddr_tracker s' pf)) (unat bit_idx)
         | Some j \<Rightarrow>
             if of_nat j * PG_SIZE + phy_addr_start (mem_pool_of s pf) = 0
             then \<exists>s'. get_a_page s pf vaddr = Inr (0, s')
             else \<exists>s'. get_a_page s pf vaddr = Inr (vaddr, s') \<and>
                       bits (vaddr_bitmap (vaddr_tracker s' pf)) (unat bit_idx) \<and>
                       bits (pool_bitmap (mem_pool_of s' pf)) j \<and>
                       ptmem s' (pte_ptr vaddr) =
                         (of_nat j * PG_SIZE + phy_addr_start (mem_pool_of s pf)) OR 7"
    by (rule get_a_page_matching) (use a in blast)+
next
  assume "pgdir (cur s) = 0 \<and> pf = PF_USER \<or> pgdir (cur s) \<noteq> 0 \<and> pf = PF_KERNEL"
  then show "get_a_page s pf vaddr = Inl PANIC_raised" by (rule get_a_page_mixed)
qed

theorem get_a_page_amended_witness:
  "pgdir (cur boot_state) = 0 \<and>
   (\<exists>s'. get_a_page boot_state PF_KERNEL 0xc0101000 = Inr (0xc0101000, s') \<and>
         bits (vaddr_bitmap (vaddr_tracker s' PF_KERNEL)) 1 \<and>
         bits (pool_bitmap (mem_pool_of s' PF_KERNEL)) 0 \<and>
         ptmem s' (pte_ptr 0xc0101000) = 0x200007) \<and>
   get_a_page boot_state PF_USER 0xc0101000 = Inl PANIC_raised"
proof -
  have sc: "bitmap_scan (pool_bitmap (mem_pool_of boot_state PF_KERNEL)) 1 = Some 0"
    by (simp add: bitmap_scan_def bitmap_bits_def run_free_def mem_pool_of_def boot_state_def
        free_bitmap_def upt_conv_Cons)
  have ix: "((0xc0101000::u32) - vaddr_start (vaddr_tracker boot_state PF_KERNEL)) div PG_SIZE = 1"
    by (simp add: vaddr_tracker_def boot_state_def K_HEAP_START_def PG_SIZE_def)
  have st: "phy_addr_start (mem_pool_of boot_state PF_KERNEL) = 0x200000"
    "pgdir (cur boot_state) = 0" "ptmem boot_state = (\<lambda>_. 0)"
    by (simp_all add: mem_pool_of_def boot_state_def kernel_thread_def)
  have h: "(pgdir (cur boot_state) \<noteq> 0 \<and> PF_KERNEL = PF_USER \<or>
            pgdir (cur boot_state) = 0 \<and> PF_KERNEL = PF_KERNEL) \<and>
           ((0xc0101000::u32) - vaddr_start (vaddr_tracker boot_state PF_KERNEL)) div PG_SIZE = 1 \<and>
           (1::u32) \<noteq> 0 \<and>
           (ptmem boot_state (pde_ptr 0xc0101000) AND 1 \<noteq> 0 \<longrightarrow>
            ptmem boot_state (pte_ptr 0xc0101000) AND 1 = 0)"
    by (simp add: ix st)
  note matching = get_a_page_amended
    [where s = boot_state and pf = PF_KERNEL and vaddr = "0xc0101000" and bit_idx = 1,
      THEN conjunct1, THEN mp, OF h, unfolded sc]
  note mixed = get_a_page_amended
    [where s = boot_state and pf = PF_USER and vaddr = "0xc0101000" and bit_idx = 1,
      THEN conjunct2, THEN mp]
  show ?thesis
    using matching mixed by (simp add: st PG_SIZE_def)
qed

section \<open>The mapping loop of \<open>malloc_page\<close>\<close>

lemma pte_ptr_page: "unat (pte_ptr v) div 4096 = 1047552 + unat v div 4194304"
proof -
  let ?q = "unat v div 4096"
  have "unat v div 4194304 = ?q div 1024" by (simp add: div_mult2_eq [symmetric])
  moreover have "(4290772992 + 4 * ?q) div 4096 = 1047552 + ?q div 1024" by simp
  ultimately show ?thesis by (simp add: unat_pte_ptr)
qed

lemma pde_ptr_page: "unat (pde_ptr v) div 4096 = 1048575"
proof -
  have "unat v div 4194304 < 1024" using unat_lt32 [of v] by simp
  then show ?thesis by (simp add: unat_pde_ptr)
qed

lemma in_memset_page:
  "(x::u32) - (y AND 0xfffff000) < 0x1000 \<longleftrightarrow> unat x div 4096 = unat y div 4096"
proof -
  define q where "q = unat y div 4096"
  define n where "n = unat x"
  have b: "unat (y AND 0xfffff000) = q * 4096" by (simp add: unat_and_fffff000 q_def)
  have q: "q < 1048576" using unat_lt32 [of y] by (simp add: q_def)
  have n: "n < 4294967296" using unat_lt32 [of x] by (simp add: n_def)
  have "unat (x - (y AND 0xfffff000)) =
          (if q * 4096 \<le> n then n - q * 4096 else n + 4294967296 - q * 4096)"
    by (simp add: unat_sub_if' b n_def)
  moreover have "(if q * 4096 \<le> n then n - q * 4096 else n + 4294967296 - q * 4096) < 4096
                 \<longleftrightarrow> n div 4096 = q"
    using q n by (auto simp add: not_le; presburger)
  ultimately show ?thesis by (simp add: word_less_nat_alt n_def q_def)
qed


lemma dn_bound: "unat (v::u32) < 4290772992 \<Longrightarrow> unat v div 4194304 < 1023"
  by simp

lemma pte_ptr_neq:
  "unat v0 div 4096 \<noteq> unat v div 4096 \<Longrightarrow> pte_ptr v \<noteq> pte_ptr v0"
  using unat_pte_ptr [of v] unat_pte_ptr [of v0] by auto

lemma pte_ptr_neq_pde_ptr: "unat v < 4290772992 \<Longrightarrow> pte_ptr v \<noteq> pde_ptr v0"
  using pte_ptr_page [of v] pde_ptr_page [of v0] dn_bound [of v] by auto

lemma pde_ptr_eq: "unat v div 4194304 = unat v0 div 4194304 \<Longrightarrow> pde_ptr v = pde_ptr v0"
  using unat_pde_ptr [of v] unat_pde_ptr [of v0] by (simp add: word_unat_eq_iff)

lemma memset_other_table:
  "unat v0 div 4194304 \<noteq> unat v div 4194304 \<Longrightarrow>
   memset_words m (pte_ptr v AND 0xfffff000) PG_SIZE (pte_ptr v0) = m (pte_ptr v0)"
  using pte_ptr_page [of v] pte_ptr_page [of v0]
  by (simp add: memset_words_def PG_SIZE_def in_memset_page)

lemma memset_directory:
  "unat v < 4290772992 \<Longrightarrow>
   memset_words m (pte_ptr v AND 0xfffff000) PG_SIZE (pde_ptr v0) = m (pde_ptr v0)"
  using pte_ptr_page [of v] pde_ptr_page [of v0] dn_bound [of v]
  by (simp add: memset_words_def PG_SIZE_def in_memset_page)

lemma page_table_add_other:
  assumes a: "page_table_add s v p = Inr s'"
    and present: "ptmem s (pde_ptr v0) AND 1 \<noteq> 0"
    and other: "unat v0 div 4096 \<noteq> unat v div 4096"
    and low: "unat v < 4290772992" "unat v0 < 4290772992"
  shows "ptmem s' (pte_ptr v0) = ptmem s (pte_ptr v0) \<and> ptmem s' (pde_ptr v0) = ptmem s (pde_ptr v0)"
proof -
  note n1 = pte_ptr_neq [OF other]
  note n2 = pte_ptr_neq_pde_ptr [OF low(1), of v0]
  note n3 = pte_ptr_neq_pde_ptr [OF low(2), of v]
  from page_table_add_cases [OF a] show ?thesis
  proof (elim disjE conjE)
    assume "s' = s\<lparr>ptmem := (ptmem s)(pte_ptr v := p OR 7)\<rparr>"
    then show ?thesis using n1 n2 by simp
  next
    assume absent: "ptmem s (pde_ptr v) AND 1 = 0"
      and s': "s' = s\<lparr>kernel_pool := snd (palloc (kernel_pool s)),
                 ptmem := (memset_words ((ptmem s)(pde_ptr v := fst (palloc (kernel_pool s)) OR 7))
                            (pte_ptr v AND 0xfffff000) PG_SIZE)
                          (pte_ptr v := p OR 7)\<rparr>"
    from absent present have d: "pde_ptr v \<noteq> pde_ptr v0" by auto
    then have t: "unat v0 div 4194304 \<noteq> unat v div 4194304"
      using pde_ptr_eq [of v v0] by auto
    show ?thesis
      using n1 n2 n3 d by (simp add: s' memset_other_table [OF t] memset_directory [OF low(1)])
  qed
qed

lemma page_table_add_pde:
  assumes a: "page_table_add s v p = Inr s'" and low: "unat v < 4290772992"
  shows "ptmem s' (pde_ptr v) AND 1 \<noteq> 0"
proof -
  note n2 = pte_ptr_neq_pde_ptr [OF low, of v]
  from page_table_add_cases [OF a] show ?thesis
    using n2 by (auto simp add: memset_directory [OF low] entry_present)
qed

lemma set_mem_pool_same: "set_mem_pool s pf (mem_pool_of s pf) = s"
  by (simp add: set_mem_pool_def mem_pool_of_def)

lemma set_mem_pool_simps:
  "ptmem (set_mem_pool s pf p) = ptmem s"
  "kernel_vaddr (set_mem_pool s pf p) = kernel_vaddr s"
  "cur (set_mem_pool s pf p) = cur s"
  "mem_pool_of (set_mem_pool s pf p) pf = p"
  by (simp_all add: set_mem_pool_def mem_pool_of_def)

lemma set_mem_pool_keeps_bits:
  "bits (pool_bitmap (mem_pool_of s pf')) j \<Longrightarrow>
   bits (pool_bitmap (mem_pool_of (set_mem_pool s pf (snd (palloc (mem_pool_of s pf)))) pf')) j"
  using palloc_keeps_bits [of "mem_pool_of s pf" j]
  by (auto simp add: set_mem_pool_def mem_pool_of_def)

lemma set_mem_pool_start:
  "phy_addr_start (mem_pool_of (set_mem_pool s pf (snd (palloc (mem_pool_of s pf)))) pf') =
   phy_addr_start (mem_pool_of s pf')"
  by (auto simp add: set_mem_pool_def mem_pool_of_def palloc_fields)

lemma page_table_add_start:
  assumes "page_table_add s v p = Inr s'"
  shows "phy_addr_start (mem_pool_of s' pf) = phy_addr_start (mem_pool_of s pf)"
  using page_table_add_cases [OF assms] by (auto simp add: mem_pool_of_def palloc_fields)

text \<open>One round of the loop of \<open>malloc_page\<close> that finds a frame.\<close>

lemma malloc_page_loop_Suc:
  assumes "malloc_page_loop s pf va (Suc n) = Inr (True, sk)"
  obtains j s2 where
    "bitmap_scan (pool_bitmap (mem_pool_of s pf)) 1 = Some j"
    "page_table_add (set_mem_pool s pf (snd (palloc (mem_pool_of s pf)))) va
       (of_nat j * PG_SIZE + phy_addr_start (mem_pool_of s pf)) = Inr s2"
    "bits (pool_bitmap (snd (palloc (mem_pool_of s pf)))) j"
    "of_nat j * PG_SIZE + phy_addr_start (mem_pool_of s pf) \<noteq> 0"
    "malloc_page_loop s2 pf (va + PG_SIZE) n = Inr (True, sk)"
proof (cases "bitmap_scan (pool_bitmap (mem_pool_of s pf)) 1")
  case None
  with assms show ?thesis by (simp add: palloc_None Let_def)
next
  case (Some j)
  note pa = palloc_Some [OF Some]
  from assms obtain s2 where
    "page_table_add (set_mem_pool s pf (snd (palloc (mem_pool_of s pf)))) va
       (of_nat j * PG_SIZE + phy_addr_start (mem_pool_of s pf)) = Inr s2"
    "of_nat j * PG_SIZE + phy_addr_start (mem_pool_of s pf) \<noteq> 0"
    "malloc_page_loop s2 pf (va + PG_SIZE) n = Inr (True, sk)"
    by (auto simp add: pa Let_def split: if_splits sum.splits)
  moreover have "bits (pool_bitmap (snd (palloc (mem_pool_of s pf)))) j"
    by (simp add: pa bitmap_set_def)
  ultimately show ?thesis using Some that by blast
qed


text \<open>One round of the loop, whatever its outcome.\<close>

lemma malloc_page_loop_step:
  assumes "malloc_page_loop s pf va (Suc n) = Inr (b, s')"
  shows "s' = set_mem_pool s pf (snd (palloc (mem_pool_of s pf))) \<or>
         (\<exists>s2. page_table_add (set_mem_pool s pf (snd (palloc (mem_pool_of s pf)))) va
                 (fst (palloc (mem_pool_of s pf))) = Inr s2 \<and>
               malloc_page_loop s2 pf (va + PG_SIZE) n = Inr (b, s'))"
  using assms
  by (cases "palloc (mem_pool_of s pf)") (auto simp add: Let_def split: if_splits sum.splits)

text \<open>The loop leaves the trackers alone and never clears a bit of a pool.\<close>

lemma malloc_page_loop_unchanged:
  assumes "malloc_page_loop s pf va k = Inr (b, s')"
  shows "kernel_vaddr s' = kernel_vaddr s \<and> cur s' = cur s \<and>
         (\<forall>pf'. phy_addr_start (mem_pool_of s' pf') = phy_addr_start (mem_pool_of s pf')) \<and>
         (\<forall>pf' j. bits (pool_bitmap (mem_pool_of s pf')) j \<longrightarrow>
                  bits (pool_bitmap (mem_pool_of s' pf')) j)"
  using assms
proof (induction k arbitrary: s va)
  case 0
  then show ?case by simp
next
  case (Suc n)
  let ?s1 = "set_mem_pool s pf (snd (palloc (mem_pool_of s pf)))"
  have one: "kernel_vaddr ?s1 = kernel_vaddr s \<and> cur ?s1 = cur s \<and>
         (\<forall>pf'. phy_addr_start (mem_pool_of ?s1 pf') = phy_addr_start (mem_pool_of s pf')) \<and>
         (\<forall>pf' j. bits (pool_bitmap (mem_pool_of s pf')) j \<longrightarrow>
                  bits (pool_bitmap (mem_pool_of ?s1 pf')) j)"
    by (simp add: set_mem_pool_simps set_mem_pool_start set_mem_pool_keeps_bits)
  from malloc_page_loop_step [OF Suc.prems] show ?case
  proof (elim disjE exE conjE)
    assume "s' = ?s1"
    with one show ?thesis by simp
  next
    fix s2
    assume a: "page_table_add ?s1 va (fst (palloc (mem_pool_of s pf))) = Inr s2"
      and l: "malloc_page_loop s2 pf (va + PG_SIZE) n = Inr (b, s')"
    have two: "kernel_vaddr s2 = kernel_vaddr ?s1 \<and> cur s2 = cur ?s1 \<and>
         (\<forall>pf'. phy_addr_start (mem_pool_of s2 pf') = phy_addr_start (mem_pool_of ?s1 pf')) \<and>
         (\<forall>pf' j. bits (pool_bitmap (mem_pool_of ?s1 pf')) j \<longrightarrow>
                  bits (pool_bitmap (mem_pool_of s2 pf')) j)"
      using page_table_add_unchanged [OF a] page_table_add_start [OF a]
        page_table_add_keeps_bits [OF a] by simp
    from Suc.IH [OF l] one two show ?thesis by simp
  qed
qed

text \<open>
  The loop leaves the entry of a page below the pages it maps as it was, when the page
  directory entry of that page is present and the pages lie below the window of the page
  tables.
\<close>

lemma malloc_page_loop_other:
  assumes "malloc_page_loop s pf va k = Inr (b, s')"
    and "ptmem s (pde_ptr v0) AND 1 \<noteq> 0"
    and "unat v0 div 4096 < unat va div 4096"
    and "unat va + k * 4096 \<le> 4290772992"
  shows "ptmem s' (pte_ptr v0) = ptmem s (pte_ptr v0) \<and> ptmem s' (pde_ptr v0) AND 1 \<noteq> 0"
  using assms
proof (induction k arbitrary: s va)
  case 0
  then show ?case by simp
next
  case (Suc n)
  let ?s1 = "set_mem_pool s pf (snd (palloc (mem_pool_of s pf)))"
  have m1: "ptmem ?s1 = ptmem s" by (simp add: set_mem_pool_simps)
  from malloc_page_loop_step [OF Suc.prems(1)] show ?case
  proof (elim disjE exE conjE)
    assume "s' = ?s1"
    with Suc.prems(2) show ?thesis by (simp add: m1)
  next
    fix s2
    assume a: "page_table_add ?s1 va (fst (palloc (mem_pool_of s pf))) = Inr s2"
      and l: "malloc_page_loop s2 pf (va + PG_SIZE) n = Inr (b, s')"
    have low: "unat va < 4290772992" "unat v0 < 4290772992"
      using Suc.prems(3,4) by auto
    have o: "unat v0 div 4096 \<noteq> unat va div 4096" using Suc.prems(3) by simp
    have p: "ptmem ?s1 (pde_ptr v0) AND 1 \<noteq> 0" using Suc.prems(2) by (simp add: m1)
    note k = page_table_add_other [OF a p o low]
    have u: "unat (va + PG_SIZE) = unat va + 4096"
      using Suc.prems(4) by (simp add: PG_SIZE_def unat_word_ariths)
    have "ptmem s' (pte_ptr v0) = ptmem s2 (pte_ptr v0) \<and> ptmem s' (pde_ptr v0) AND 1 \<noteq> 0"
    proof (rule Suc.IH [OF l])
      show "ptmem s2 (pde_ptr v0) AND 1 \<noteq> 0" using k p by simp
      show "unat v0 div 4096 < unat (va + PG_SIZE) div 4096" using Suc.prems(3) by (simp add: u)
      show "unat (va + PG_SIZE) + n * 4096 \<le> 4290772992" using Suc.prems(4) by (simp add: u)
    qed
    with k show ?thesis by (simp add: m1)
  qed
qed


text \<open>
  After \<open>k\<close> rounds that each found a frame, every one of the \<open>k\<close> pages has its entry,
  which maps a frame of the pool that is marked allocated.
\<close>

lemma malloc_page_loop_entries:
  assumes "malloc_page_loop s pf va k = Inr (True, sk)"
    and "unat va + k * 4096 \<le> 4290772992"
  shows "\<forall>i<k. \<exists>j. ptmem sk (pte_ptr (va + of_nat i * PG_SIZE)) =
                      (of_nat j * PG_SIZE + phy_addr_start (mem_pool_of s pf)) OR 7 \<and>
                    bits (pool_bitmap (mem_pool_of sk pf)) j"
  using assms
proof (induction k arbitrary: s va)
  case 0
  then show ?case by simp
next
  case (Suc n)
  let ?s1 = "set_mem_pool s pf (snd (palloc (mem_pool_of s pf)))"
  from Suc.prems(1) obtain j s2 where
    a: "page_table_add ?s1 va (of_nat j * PG_SIZE + phy_addr_start (mem_pool_of s pf)) = Inr s2"
    and bj: "bits (pool_bitmap (snd (palloc (mem_pool_of s pf)))) j"
    and l: "malloc_page_loop s2 pf (va + PG_SIZE) n = Inr (True, sk)"
    by (rule malloc_page_loop_Suc)
  have low: "unat va < 4290772992" using Suc.prems(2) by simp
  have u: "unat (va + PG_SIZE) = unat va + 4096"
    using Suc.prems(2) by (simp add: PG_SIZE_def unat_word_ariths)
  have b: "unat (va + PG_SIZE) + n * 4096 \<le> 4290772992" using Suc.prems(2) by (simp add: u)
  have st: "phy_addr_start (mem_pool_of s2 pf) = phy_addr_start (mem_pool_of s pf)"
    using page_table_add_start [OF a] by (simp add: set_mem_pool_start)
  have first: "ptmem sk (pte_ptr va) =
                 (of_nat j * PG_SIZE + phy_addr_start (mem_pool_of s pf)) OR 7"
  proof -
    have "ptmem sk (pte_ptr va) = ptmem s2 (pte_ptr va)"
      using malloc_page_loop_other [OF l page_table_add_pde [OF a low] _ b] by (simp add: u)
    then show ?thesis by (simp add: page_table_add_entry [OF a])
  qed
  have "bits (pool_bitmap (mem_pool_of ?s1 pf)) j" using bj by (simp add: set_mem_pool_simps)
  then have "bits (pool_bitmap (mem_pool_of s2 pf)) j" by (rule page_table_add_keeps_bits [OF a])
  then have bit: "bits (pool_bitmap (mem_pool_of sk pf)) j"
    using malloc_page_loop_unchanged [OF l] by simp
  note ih = Suc.IH [OF l b]
  show ?case
  proof (intro allI impI)
    fix i assume i: "i < Suc n"
    show "\<exists>j. ptmem sk (pte_ptr (va + of_nat i * PG_SIZE)) =
                 (of_nat j * PG_SIZE + phy_addr_start (mem_pool_of s pf)) OR 7 \<and>
               bits (pool_bitmap (mem_pool_of sk pf)) j"
    proof (cases i)
      case 0
      with first bit show ?thesis by auto
    next
      case (Suc i')
      have e: "va + PG_SIZE + of_nat i' * PG_SIZE = va + of_nat (Suc i') * PG_SIZE"
        by (simp add: algebra_simps)
      have "i' < n" using i Suc by simp
      with ih have "\<exists>j. ptmem sk (pte_ptr (va + PG_SIZE + of_nat i' * PG_SIZE)) =
                 (of_nat j * PG_SIZE + phy_addr_start (mem_pool_of s2 pf)) OR 7 \<and>
               bits (pool_bitmap (mem_pool_of sk pf)) j"
        by blast
      then show ?thesis unfolding Suc e st .
    qed
  qed
qed

text \<open>A run of rounds that found their frames is a prefix of any longer run.\<close>

lemma malloc_page_loop_split:
  assumes "malloc_page_loop s pf va k = Inr (True, sk)"
  shows "malloc_page_loop s pf va (k + m) = malloc_page_loop sk pf (va + of_nat k * PG_SIZE) m"
  using assms
proof (induction k arbitrary: s va)
  case 0
  then show ?case by simp
next
  case (Suc n)
  let ?s1 = "set_mem_pool s pf (snd (palloc (mem_pool_of s pf)))"
  from Suc.prems obtain j s2 where
    sc: "bitmap_scan (pool_bitmap (mem_pool_of s pf)) 1 = Some j"
    and a: "page_table_add ?s1 va (of_nat j * PG_SIZE + phy_addr_start (mem_pool_of s pf)) = Inr s2"
    and nz: "of_nat j * PG_SIZE + phy_addr_start (mem_pool_of s pf) \<noteq> 0"
    and l: "malloc_page_loop s2 pf (va + PG_SIZE) n = Inr (True, sk)"
    by (rule malloc_page_loop_Suc)
  have "malloc_page_loop s pf va (Suc (n + m)) = malloc_page_loop s2 pf (va + PG_SIZE) (n + m)"
    using a nz by (simp add: palloc_Some [OF sc] Let_def)
  also have "\<dots> = malloc_page_loop sk pf (va + PG_SIZE + of_nat n * PG_SIZE) m"
    by (rule Suc.IH [OF l])
  also have "va + PG_SIZE + of_nat n * PG_SIZE = va + of_nat (Suc n) * PG_SIZE"
    by (simp add: algebra_simps)
  finally show ?case by simp
qed

lemma malloc_page_loop_fails:
  assumes "bitmap_scan (pool_bitmap (mem_pool_of s pf)) 1 = None"
  shows "malloc_page_loop s pf va (Suc m) = Inr (False, s)"
  by (simp add: palloc_None [OF assms] set_mem_pool_same)

text \<open>What a reservation that returns an address has done.\<close>

lemma vaddr_get_marks:
  assumes "vaddr_get s pf pg_cnt = Inr (va, s1)" and "va \<noteq> 0"
  shows "\<exists>i0. va = vaddr_start (vaddr_tracker s pf) + of_nat i0 * PG_SIZE \<and>
              vaddr_bitmap (vaddr_tracker s1 pf) =
                with_run (vaddr_bitmap (vaddr_tracker s pf)) i0 (unat pg_cnt) True"
  using assms
  by (cases pf)
    (auto simp add: vaddr_get_def vaddr_tracker_def bitmap_set_run_eq Let_def
      split: option.splits if_splits)

text \<open>
  Claim C2. A request for \<open>pg_cnt\<close> pages whose virtual pages were reserved at \<open>va\<close>, whose
  first \<open>k < pg_cnt\<close> rounds each found a frame and mapped a page, and whose next frame
  allocation fails: \<open>malloc_page\<close> returns \<open>NULL\<close>, and the state it leaves is the state
  after the \<open>k\<close> rounds, with nothing undone: the tracker bits of all \<open>pg_cnt\<close> virtual
  pages are set, and each of the \<open>k\<close> pages has its page-table entry, which maps a frame
  that is marked allocated in the pool, and no bit of either pool that was set before the
  call is cleared. The statement about the entries is for pages below the window of the
  page tables at 0xffc00000, where the heap ranges lie.
\<close>

theorem malloc_page_no_rollback:
  assumes valid: "0 < pg_cnt" "pg_cnt < 3840"
    and reserved: "vaddr_get s pf pg_cnt = Inr (va, s1)" "va \<noteq> 0"
    and mapped: "k < unat pg_cnt" "malloc_page_loop s1 pf va k = Inr (True, sk)"
    and exhausted: "bitmap_scan (pool_bitmap (mem_pool_of sk pf)) 1 = None"
  shows "malloc_page s pf pg_cnt = Inr (0, sk) \<and>
         (\<exists>i0. va = vaddr_start (vaddr_tracker s pf) + of_nat i0 * PG_SIZE \<and>
               (\<forall>i < unat pg_cnt. bits (vaddr_bitmap (vaddr_tracker sk pf)) (i0 + i))) \<and>
         (\<forall>pf' j. bits (pool_bitmap (mem_pool_of s pf')) j \<longrightarrow>
                  bits (pool_bitmap (mem_pool_of sk pf')) j) \<and>
         (unat va + unat pg_cnt * 4096 \<le> 4290772992 \<longrightarrow>
            (\<forall>i < k. \<exists>j. ptmem sk (pte_ptr (va + of_nat i * PG_SIZE)) =
                             (of_nat j * PG_SIZE + phy_addr_start (mem_pool_of s pf)) OR 7 \<and>
                           bits (pool_bitmap (mem_pool_of sk pf)) j))"
proof -
  obtain m where m: "unat pg_cnt = k + Suc m"
    using mapped(1) less_imp_Suc_add by auto
  have "malloc_page_loop s1 pf va (unat pg_cnt) =
          malloc_page_loop sk pf (va + of_nat k * PG_SIZE) (Suc m)"
    unfolding m by (rule malloc_page_loop_split [OF mapped(2)])
  then have loop: "malloc_page_loop s1 pf va (unat pg_cnt) = Inr (False, sk)"
    by (simp only: malloc_page_loop_fails [OF exhausted])
  have r: "malloc_page s pf pg_cnt = Inr (0, sk)"
    using valid reserved loop by (simp add: malloc_page_def)
  from vaddr_get_marks [OF reserved] obtain i0 where
    va: "va = vaddr_start (vaddr_tracker s pf) + of_nat i0 * PG_SIZE"
    and bm: "vaddr_bitmap (vaddr_tracker s1 pf) =
               with_run (vaddr_bitmap (vaddr_tracker s pf)) i0 (unat pg_cnt) True"
    by blast
  have "vaddr_tracker sk pf = vaddr_tracker s1 pf"
    using malloc_page_loop_unchanged [OF mapped(2)] by (simp add: vaddr_tracker_def)
  then have v: "\<forall>i < unat pg_cnt. bits (vaddr_bitmap (vaddr_tracker sk pf)) (i0 + i)"
    by (simp add: bm with_run_def)
  have p1: "mem_pool_of s1 pf' = mem_pool_of s pf'" for pf'
    using reserved(1)
    by (auto simp add: vaddr_get_def mem_pool_of_def Let_def split: option.splits if_splits)
  have f: "\<forall>pf' j. bits (pool_bitmap (mem_pool_of s pf')) j \<longrightarrow>
                    bits (pool_bitmap (mem_pool_of sk pf')) j"
    using malloc_page_loop_unchanged [OF mapped(2)] by (simp add: p1)
  have e: "\<forall>i < k. \<exists>j. ptmem sk (pte_ptr (va + of_nat i * PG_SIZE)) =
                          (of_nat j * PG_SIZE + phy_addr_start (mem_pool_of s pf)) OR 7 \<and>
                        bits (pool_bitmap (mem_pool_of sk pf)) j"
    if below: "unat va + unat pg_cnt * 4096 \<le> 4290772992"
  proof -
    have "unat va + k * 4096 \<le> 4290772992" using below mapped(1) by simp
    from malloc_page_loop_entries [OF mapped(2) this] show ?thesis by (simp add: p1)
  qed
  from r va v f e show ?thesis by blast
qed

theorem malloc_page_no_rollback_witness:
  "vaddr_get scarce_state PF_KERNEL 3 = Inr (K_HEAP_START, scarce_reserved) \<and>
   malloc_page_loop scarce_reserved PF_KERNEL K_HEAP_START 1 = Inr (True, scarce_mapped) \<and>
   bitmap_scan (pool_bitmap (mem_pool_of scarce_mapped PF_KERNEL)) 1 = None \<and>
   malloc_page scarce_state PF_KERNEL 3 = Inr (0, scarce_mapped) \<and>
   (\<exists>i0. K_HEAP_START = vaddr_start (vaddr_tracker scarce_state PF_KERNEL) + of_nat i0 * PG_SIZE \<and>
         (\<forall>i < unat (3::u32). bits (vaddr_bitmap (vaddr_tracker scarce_mapped PF_KERNEL)) (i0 + i))) \<and>
   unat K_HEAP_START + unat (3::u32) * 4096 \<le> 4290772992 \<and>
   (\<exists>j. ptmem scarce_mapped (pte_ptr K_HEAP_START) =
           (of_nat j * PG_SIZE + phy_addr_start (mem_pool_of scarce_state PF_KERNEL)) OR 7 \<and>
         bits (pool_bitmap (mem_pool_of scarce_mapped PF_KERNEL)) j)"
proof -
  have "\<not> isl (vaddr_get scarce_state PF_KERNEL 3)"
    and "fst (projr (vaddr_get scarce_state PF_KERNEL 3)) = K_HEAP_START"
    by code_simp+
  then have h1: "vaddr_get scarce_state PF_KERNEL 3 = Inr (K_HEAP_START, scarce_reserved)"
    unfolding scarce_reserved_def by (metis sum.collapse(2) prod.collapse)
  have "\<not> isl (malloc_page_loop scarce_reserved PF_KERNEL K_HEAP_START 1)"
    and "fst (projr (malloc_page_loop scarce_reserved PF_KERNEL K_HEAP_START 1))"
    by code_simp+
  then have h2: "malloc_page_loop scarce_reserved PF_KERNEL K_HEAP_START 1 =
                   Inr (True, scarce_mapped)"
    unfolding scarce_mapped_def by (metis sum.collapse(2) prod.collapse)
  have h3: "bitmap_scan (pool_bitmap (mem_pool_of scarce_mapped PF_KERNEL)) 1 = None"
    by code_simp
  have v: "(0::u32) < 3" "(3::u32) < 3840" "K_HEAP_START \<noteq> 0"
    "unat K_HEAP_START + unat (3::u32) * 4096 \<le> 4290772992" "1 < unat (3::u32)"
    by (simp_all add: K_HEAP_START_def)
  show ?thesis
    using malloc_page_no_rollback [OF v(1,2) h1 v(3,5) h2 h3] h1 h2 h3 v(4) by simp
qed

section \<open>Freeing heap memory\<close>

lemma sys_free_large:
  assumes "ptr \<noteq> 0" and "pgdir (cur s) = 0 \<longrightarrow> K_HEAP_START \<le> ptr"
    and "desc (arenas s (block2arena ptr)) = None" and "large (arenas s (block2arena ptr))"
  shows "sys_free s ptr =
           mfree_page s (owner_flag s) (block2arena ptr) (cnt (arenas s (block2arena ptr)))"
  using assms by (auto simp add: sys_free_def owner_flag_def Let_def)

lemma sys_free_small:
  assumes "ptr \<noteq> 0" and "pgdir (cur s) = 0 \<longrightarrow> K_HEAP_START \<le> ptr"
    and "desc (arenas s (block2arena ptr)) = Some dp" and "get_desc s dp = Some d"
    and "s2 = (put_desc s dp (d\<lparr>free_list := list_append (free_list d) ptr\<rparr>))
                \<lparr>arenas := (arenas s)(block2arena ptr := (arenas s (block2arena ptr))
                   \<lparr>cnt := cnt (arenas s (block2arena ptr)) + 1\<rparr>)\<rparr>"
  shows "sys_free s ptr =
           (if cnt (arenas s (block2arena ptr)) + 1 = blocks_per_arena d
            then case arena_unlink s2 (block2arena ptr) 0 (unat (blocks_per_arena d)) of
                   Inl e \<Rightarrow> Inl e
                 | Inr s3 \<Rightarrow> mfree_page s3 (owner_flag s) (block2arena ptr) 1
            else Inr s2)"
proof -
  have a: "arenas (put_desc s dp x) = arenas s" for x
    by (cases dp) (simp add: put_desc_def split: desc_array.splits)
  show ?thesis
    using assms unfolding owner_flag_def by (auto simp add: sys_free_def Let_def a)
qed

lemma sys_free_small_keeps_pages:
  assumes "s2 = (put_desc s dp d')\<lparr>arenas := m\<rparr>"
  shows "kernel_pool s2 = kernel_pool s \<and> user_pool s2 = user_pool s \<and> ptmem s2 = ptmem s \<and>
         kernel_vaddr s2 = kernel_vaddr s \<and> userprog_vaddr (cur s2) = userprog_vaddr (cur s)"
  using assms by (cases dp) (simp add: put_desc_def split: desc_array.splits)

text \<open>
  The loop of \<open>mfree_page\<close> for the user pool halts on a frame whose address has bit 12
  set: it tests \<open>pg_phy_addr & PG_SIZE\<close> where the loop for the kernel pool tests
  \<open>pg_phy_addr % PG_SIZE\<close>.
\<close>

lemma mfree_page_user_frame_bit12:
  assumes "pg_cnt \<ge> 1" and "vaddr mod PG_SIZE = 0"
    and "addr_v2p s vaddr mod PG_SIZE = 0" and "addr_v2p s vaddr \<ge> 0x102000"
    and "addr_v2p s vaddr \<ge> phy_addr_start (user_pool s)"
    and "addr_v2p s vaddr AND PG_SIZE \<noteq> 0"
  shows "mfree_page s pf vaddr pg_cnt = Inl ASSERT_failed"
proof -
  have "0 < unat pg_cnt" using assms(1) by (simp add: word_le_nat_alt)
  then obtain n where n: "unat pg_cnt = Suc n" by (cases "unat pg_cnt") auto
  show ?thesis
    using assms by (simp add: mfree_page_def n Let_def)
qed

text \<open>A kernel thread that allocates one block of 1024 bytes and frees it gets the page back.\<close>

lemma sys_free_kernel_example:
  "(case sys_malloc boot_state 1024 of
      Inl e \<Rightarrow> False
    | Inr (ptr, s') \<Rightarrow>
        ptr = 0xc010000c \<and> cnt (arenas s' 0xc0100000) = 2 \<and>
        addr_v2p s' 0xc0100000 = 0x200000 \<and>
        bits (pool_bitmap (kernel_pool s')) 0 \<and>
        (case sys_free s' ptr of
           Inl e \<Rightarrow> False
         | Inr s'' \<Rightarrow> \<not> bits (pool_bitmap (kernel_pool s'')) 0 \<and>
                      \<not> bits (vaddr_bitmap (kernel_vaddr s'')) 0 \<and>
                      free_list (k_block_descs s'' ! 6) = []))"
  by code_simp

text \<open>
  Claim C5 fails on the code for a user task. \<open>sys_malloc(2000)\<close> takes the branch of
  whole pages, allocates one page and stamps its header as the claim says; the frame is
  0x211000, and \<open>sys_free\<close> of the address halts in the loop of \<open>mfree_page\<close> for the user
  pool instead of giving the page back.
\<close>

theorem sys_free_large_user_halts:
  "(case sys_malloc user_state 2000 of
      Inl e \<Rightarrow> False
    | Inr (ptr, s') \<Rightarrow>
        ptr = 0x804800c \<and>
        desc (arenas s' 0x8048000) = None \<and> large (arenas s' 0x8048000) \<and>
        cnt (arenas s' 0x8048000) = 1 \<and>
        addr_v2p s' 0x8048000 = 0x211000 \<and>
        (case sys_free s' ptr of Inl e \<Rightarrow> e = ASSERT_failed | Inr s'' \<Rightarrow> False))"
  by code_simp

text \<open>
  Claim C3 fails on the code for a user task. The block of 1024 bytes is the only one
  taken from its arena, whose frame is 0x211000; \<open>sys_free\<close> of the block brings the count
  of free blocks to the three blocks of the arena, and the call halts in the loop of
  \<open>mfree_page\<close> for the user pool instead of giving the page back.
\<close>

theorem sys_free_arena_user_halts:
  "(case sys_malloc user_state 1024 of
      Inl e \<Rightarrow> False
    | Inr (ptr, s') \<Rightarrow>
        ptr = 0x804800c \<and>
        desc (arenas s' 0x8048000) = Some (U_BLOCK_DESC, 6) \<and> \<not> large (arenas s' 0x8048000) \<and>
        cnt (arenas s' 0x8048000) = 2 \<and>
        blocks_per_arena (u_block_desc (cur s') ! 6) = 3 \<and>
        addr_v2p s' 0x8048000 = 0x211000 \<and>
        (case sys_free s' ptr of Inl e \<Rightarrow> e = ASSERT_failed | Inr s'' \<Rightarrow> False))"
  by code_simp

end
